theory Spec2Isabelle
  imports Complex_Main
begin

section \<open>Meta-tree posterior inference of BayesML: a shallow embedding\<close>

text \<open>
  The definitions below follow \<^verbatim>\<open>bayesml/metatree/_metatree.py\<close>, class
  \<^verbatim>\<open>LearnModel\<close>.  Floating-point numbers are modelled as reals, so rounding,
  infinities and NaN are outside the model.  Every exception the Python code can raise
  on the modelled paths is a value of type \<open>error\<close>, and a function that can raise
  returns \<open>error + 'a\<close>.
\<close>

subsection \<open>Errors and Python primitives\<close>

datatype error =
    ParameterFormatError string
  | DataFormatError string
  | ValueError
  | IndexError
  | TypeError
  | AttributeError
  | ZeroDivisionError

text \<open>Division of Python floats: a zero divisor raises.\<close>

definition py_div :: "real \<Rightarrow> real \<Rightarrow> error + real" where
  "py_div a b = (if b = 0 then Inl ZeroDivisionError else Inr (a / b))"

text \<open>\<^verbatim>\<open>xs[-1] = f(xs[-1])\<close> on a Python list: an empty list raises.\<close>

definition upd_last :: "('a \<Rightarrow> 'a) \<Rightarrow> 'a list \<Rightarrow> error + 'a list" where
  "upd_last f xs = (if xs = [] then Inl IndexError else Inr (butlast xs @ [f (last xs)]))"

text \<open>\<^verbatim>\<open>xs[-1]\<close> on a Python list.\<close>

definition py_last :: "'a list \<Rightarrow> error + 'a" where
  "py_last xs = (if xs = [] then Inl IndexError else Inr (last xs))"

text \<open>\<^verbatim>\<open>xs[i:]\<close> for an integer \<open>i\<close>: a negative index counts from the end.\<close>

definition py_slice_from :: "'a list \<Rightarrow> int \<Rightarrow> 'a list" where
  "py_slice_from xs i = (if 0 \<le> i then drop (nat i) xs else drop (nat (int (length xs) + i)) xs)"

text \<open>
  \<^verbatim>\<open>numpy.isclose(a, b)\<close> with the default tolerances \<open>rtol = 1e-05\<close> and
  \<open>atol = 1e-08\<close>: \<open>|a - b| \<le> atol + rtol * |b|\<close>.  The test is not symmetric in
  \<open>a\<close> and \<open>b\<close>.
\<close>

definition isclose :: "real \<Rightarrow> real \<Rightarrow> bool" where
  "isclose a b = (\<bar>a - b\<bar> \<le> 1 / 100000000 + 1 / 100000 * \<bar>b\<bar>)"

text \<open>
  \<^verbatim>\<open>numpy.allclose(a, b)\<close> on two one-dimensional arrays, either of which may be
  \<^verbatim>\<open>None\<close>: arrays of equal length are compared elementwise, an array of length one
  is broadcast, other shapes raise \<^verbatim>\<open>ValueError\<close>, and \<^verbatim>\<open>None\<close> raises
  \<^verbatim>\<open>TypeError\<close>.
\<close>

definition allclose :: "real list option \<Rightarrow> real list option \<Rightarrow> error + bool" where
  "allclose a b =
     (case a of None \<Rightarrow> Inl TypeError
      | Some xs \<Rightarrow>
        (case b of None \<Rightarrow> Inl TypeError
         | Some ys \<Rightarrow>
           if length xs = length ys then Inr (list_all2 isclose xs ys)
           else if length xs = 1 then Inr (list_all (\<lambda>y. isclose (hd xs) y) ys)
           else if length ys = 1 then Inr (list_all (\<lambda>x. isclose x (hd ys)) xs)
           else Inl ValueError))"

text \<open>\<^verbatim>\<open>numpy.logaddexp\<close>.\<close>

definition logaddexp :: "real \<Rightarrow> real \<Rightarrow> real" where
  "logaddexp a b = ln (exp a + exp b)"

text \<open>
  A float as \<^verbatim>\<open>numpy.log\<close> and the arithmetic on its results produce it: a real number,
  an infinity or NaN.  \<^verbatim>\<open>numpy.log(0)\<close> is \<open>-inf\<close> and the logarithm of a negative
  number is NaN (numpy warns and does not raise).  Rounding and overflow are not
  modelled.
\<close>

datatype npfloat = Fin real | PInf | NInf | NaN

definition np_log :: "real \<Rightarrow> npfloat" where
  "np_log x = (if 0 < x then Fin (ln x) else if x = 0 then NInf else NaN)"

fun np_add :: "npfloat \<Rightarrow> npfloat \<Rightarrow> npfloat" where
  "np_add (Fin a) (Fin b) = Fin (a + b)"
| "np_add (Fin a) PInf = PInf"
| "np_add (Fin a) NInf = NInf"
| "np_add PInf (Fin b) = PInf"
| "np_add PInf PInf = PInf"
| "np_add PInf NInf = NaN"
| "np_add NInf (Fin b) = NInf"
| "np_add NInf PInf = NaN"
| "np_add NInf NInf = NInf"
| "np_add NaN b = NaN"
| "np_add a NaN = NaN"

fun np_neg :: "npfloat \<Rightarrow> npfloat" where
  "np_neg (Fin a) = Fin (- a)"
| "np_neg PInf = NInf"
| "np_neg NInf = PInf"
| "np_neg NaN = NaN"

definition np_sub :: "npfloat \<Rightarrow> npfloat \<Rightarrow> npfloat" where
  "np_sub a b = np_add a (np_neg b)"

fun np_exp :: "npfloat \<Rightarrow> npfloat" where
  "np_exp (Fin a) = Fin (exp a)"
| "np_exp PInf = PInf"
| "np_exp NInf = Fin 0"
| "np_exp NaN = NaN"

text \<open>\<^verbatim>\<open>u < x\<close> for a real \<open>u\<close>: every comparison with NaN is false.\<close>

fun np_less :: "real \<Rightarrow> npfloat \<Rightarrow> bool" where
  "np_less u (Fin a) = (u < a)"
| "np_less u PInf = True"
| "np_less u NInf = False"
| "np_less u NaN = False"

text \<open>\<^verbatim>\<open>numpy.logaddexp\<close> on such floats: \<open>log(exp(a) + exp(b))\<close> with \<open>exp(-inf) = 0\<close>.\<close>

fun np_logaddexp :: "npfloat \<Rightarrow> npfloat \<Rightarrow> npfloat" where
  "np_logaddexp (Fin a) (Fin b) = Fin (logaddexp a b)"
| "np_logaddexp (Fin a) NInf = Fin a"
| "np_logaddexp NInf (Fin b) = Fin b"
| "np_logaddexp NInf NInf = NInf"
| "np_logaddexp (Fin a) PInf = PInf"
| "np_logaddexp PInf (Fin b) = PInf"
| "np_logaddexp PInf PInf = PInf"
| "np_logaddexp PInf NInf = PInf"
| "np_logaddexp NInf PInf = PInf"
| "np_logaddexp NaN b = NaN"
| "np_logaddexp a NaN = NaN"

subsection \<open>Nodes and model constants\<close>

text \<open>
  Class \<^verbatim>\<open>_Node\<close>.  The fields \<^verbatim>\<open>map_leaf\<close>, \<^verbatim>\<open>_is_no_sample\<close> and
  \<^verbatim>\<open>_p_indices\<close> serve MAP extraction and prediction only and are left out.
  \<^verbatim>\<open>children = None\<close> is the empty list (subscripting either raises).  The attribute
  \<^verbatim>\<open>division_flag\<close> is not set by the constructor: \<open>None\<close> means that it is absent,
  and reading it then raises \<^verbatim>\<open>AttributeError\<close>.  The sub-model is an opaque value
  of type \<open>'sm\<close>.
\<close>

datatype 'sm node = Node
  (depth: nat)
  (k_candidates: "nat list")
  (h_g: real)
  (k: "nat option")
  (sub_model: 'sm)
  (children: "'sm node list")
  (ranges: "(real \<times> real) list")
  (thresholds: "real list option")
  (leaf: bool)
  (log_children_marginal_likelihood: "real list")
  (log_marginal_likelihood: "real option")
  (division_flag: "bool option")

text \<open>The constants and hyperparameters of \<^verbatim>\<open>LearnModel\<close> that the modelled code reads.\<close>

record 'sm config =
  c_dim_continuous :: nat
  c_dim_categorical :: nat
  c_dim_features :: nat
  c_max_depth :: nat
  c_num_children_vec :: "nat list"
  c_num_assignment_vec :: "int list"
  c_ranges :: "(real \<times> real) list"
  h0_k_weight_vec :: "real list"
  hn_g :: real
  hn_node_sub_model :: 'sm
  is_linearregression :: bool

text \<open>
  \<^verbatim>\<open>self._root_k_candidates\<close>, which the constructor of \<^verbatim>\<open>LearnModel\<close> builds from
  the constants: feature \<open>i\<close> once when \<^verbatim>\<open>c_num_assignment_vec[i]\<close> is negative, and
  \<^verbatim>\<open>c_num_assignment_vec[i]\<close> times otherwise.  The constructor gives
  \<^verbatim>\<open>c_num_assignment_vec\<close> the length \<^verbatim>\<open>c_dim_features\<close>, so the loop over
  \<^verbatim>\<open>range(self.c_dim_features)\<close> pairs every feature with its entry.
\<close>

definition root_k_candidates :: "'sm config \<Rightarrow> nat list" where
  "root_k_candidates cfg =
     concat (map (\<lambda>ia. if snd ia < 0 then [fst ia] else replicate (nat (snd ia)) (fst ia))
               (zip [0..<c_dim_features cfg] (c_num_assignment_vec cfg)))"

subsection \<open>The single-chain sampler state\<close>

text \<open>
  The transient fields that \<^verbatim>\<open>_MTMCMC\<close> adds to \<^verbatim>\<open>self\<close>.  The random generator
  \<^verbatim>\<open>self.rng\<close> is a state of an abstract type \<open>'r\<close>, threaded through every draw.
\<close>

record ('sm, 'r) mcmc_state =
  rng :: 'r
  tmp_metatree_list :: "'sm node list"
  tmp_metatree_count_list :: "int list"
  l_last :: real
  num_proposed :: int
  num_accepted :: int
  rho :: real
  phi :: real
  g_max :: real
  denominator :: real
  p_obj :: real
  numerator :: real
  g_list :: "real list"
  l_list :: "real list"
  g_max_denominator :: real
  g_max_accumulated :: real

text \<open>
  What the sampler takes from outside: \<^verbatim>\<open>rng.random()\<close>, \<^verbatim>\<open>rng.choice\<close>, and the
  truncated structure generators \<^verbatim>\<open>_generate_truncated_and_update\<close> and
  \<^verbatim>\<open>_generate_truncated_and_update_lr\<close>, which draw from the generator, mutate the
  previous tree (its division flags) and the new root in place, and return the new
  tree's log marginal likelihood.  A generator takes the data, the ceiling
  \<^verbatim>\<open>self._g_max\<close> (\<open>None\<close> in the initial forced calls, which precede its
  assignment and do not read it), the previous tree (\<open>None\<close> in the forced mode), the
  fresh root and the force flag, and returns the previous tree and the new tree as it
  leaves them, with the log marginal likelihood.
\<close>

record ('sm, 'r, 'd) sampler =
  rng_random :: "'r \<Rightarrow> real \<times> 'r"
  rng_choice :: "nat list \<Rightarrow> 'r \<Rightarrow> nat \<times> 'r"
  generate_truncated_and_update ::
    "'d \<Rightarrow> real option \<Rightarrow> 'sm node option \<Rightarrow> 'sm node \<Rightarrow> bool \<Rightarrow> 'r
       \<Rightarrow> (error + ('sm node option \<times> 'sm node \<times> real)) \<times> 'r"
  generate_truncated_and_update_lr ::
    "'d \<Rightarrow> real option \<Rightarrow> 'sm node option \<Rightarrow> 'sm node \<Rightarrow> bool \<Rightarrow> 'r
       \<Rightarrow> (error + ('sm node option \<times> 'sm node \<times> real)) \<times> 'r"

text \<open>\<^verbatim>\<open>rng.choice(xs)\<close>: an empty sequence raises \<^verbatim>\<open>ValueError\<close>.\<close>

definition py_choice :: "('sm, 'r, 'd) sampler \<Rightarrow> nat list \<Rightarrow> 'r \<Rightarrow> error + (nat \<times> 'r)" where
  "py_choice smp xs r = (if xs = [] then Inl ValueError else Inr (rng_choice smp xs r))"

text \<open>
  The root that every proposal starts from:
  \<^verbatim>\<open>_Node(0, self._root_k_candidates, self.hn_g, self.rng.choice(self._root_k_candidates),
  sub_model=copy.deepcopy(self._hn_node_sub_model), ranges=self.c_ranges,
  log_children_marginal_likelihood=np.zeros(self._num_children))\<close>.
\<close>

definition new_root :: "'sm config \<Rightarrow> nat \<Rightarrow> nat \<Rightarrow> 'sm node" where
  "new_root cfg num_children k0 =
     Node 0 (root_k_candidates cfg) (hn_g cfg) (Some k0) (hn_node_sub_model cfg) []
       (c_ranges cfg) None False (replicate num_children 0) None None"

definition generate ::
  "('sm, 'r, 'd) sampler \<Rightarrow> 'sm config \<Rightarrow> 'd \<Rightarrow> real option \<Rightarrow> 'sm node option \<Rightarrow> 'sm node
     \<Rightarrow> bool \<Rightarrow> 'r \<Rightarrow> (error + ('sm node option \<times> 'sm node \<times> real)) \<times> 'r" where
  "generate smp cfg dat gmax lst new flag r =
     (if is_linearregression cfg then generate_truncated_and_update_lr smp dat gmax lst new flag r
      else generate_truncated_and_update smp dat gmax lst new flag r)"

subsection \<open>Truncated proposal log-probability\<close>

text \<open>
  \<^verbatim>\<open>_calc_truncated_posterior_lean\<close>.  The loop over the children adds their values
  to \<^verbatim>\<open>tmp = 0\<close> in order and stops at the first child that raises.  The logarithm
  is \<open>-inf\<close> when \<open>min(h_g, g_max)\<close> is 0 on a reused split, or 1 on a split that was
  not reused.
\<close>

fun sum_results :: "(error + npfloat) list \<Rightarrow> npfloat \<Rightarrow> error + npfloat" where
  "sum_results [] tmp = Inr tmp"
| "sum_results (r # rs) tmp =
     (case r of Inl e \<Rightarrow> Inl e | Inr v \<Rightarrow> sum_results rs (np_add tmp v))"

lemma size_nth_children [termination_simp]:
  "i < length (children n) \<Longrightarrow> size (children n ! i) < size n"
proof (cases n)
  case (Node d kc h kk sm cs rg th lf lc lm df)
  assume "i < length (children n)"
  then have "cs ! i \<in> set cs" using Node by simp
  then have "size (cs ! i) \<le> size_list size cs" by (rule size_list_estimation') simp
  then show ?thesis using Node by simp
qed

function calc_truncated_posterior_lean :: "nat \<Rightarrow> real \<Rightarrow> 'sm node \<Rightarrow> error + npfloat" where
  "calc_truncated_posterior_lean num_children gmax nd =
     (case k nd of None \<Rightarrow> Inr (Fin 0)
      | Some kk \<Rightarrow>
        (case division_flag nd of None \<Rightarrow> Inl AttributeError
         | Some True \<Rightarrow>
           (case sum_results (map (\<lambda>i. if i < length (children nd)
                                        then calc_truncated_posterior_lean num_children gmax (children nd ! i)
                                        else Inl IndexError) [0..<num_children]) (Fin 0) of
              Inl e \<Rightarrow> Inl e
            | Inr tmp \<Rightarrow> Inr (np_add (np_log (min (h_g nd) gmax)) tmp))
         | Some False \<Rightarrow> Inr (np_log (1 - min (h_g nd) gmax))))"
  by pat_completeness auto
termination
  by (relation "measure (\<lambda>(n, g, nd). size nd)") (auto simp: size_nth_children)

declare calc_truncated_posterior_lean.simps [simp del]

subsection \<open>Structural comparison and the ensemble compactor\<close>

text \<open>
  A loop \<^verbatim>\<open>for i in range(n): if not f(i): return False\<close> followed by
  \<^verbatim>\<open>return True\<close>: the first result that is \<open>False\<close> or an error decides.
\<close>

fun first_false :: "(error + bool) list \<Rightarrow> error + bool" where
  "first_false [] = Inr True"
| "first_false (r # rs) =
     (case r of Inl e \<Rightarrow> Inl e | Inr b \<Rightarrow> if b then first_false rs else Inr False)"

text \<open>
  \<^verbatim>\<open>_compare_metatree_recursion\<close>.  Only \<^verbatim>\<open>leaf\<close>, \<^verbatim>\<open>k\<close>, \<^verbatim>\<open>thresholds\<close>
  and \<^verbatim>\<open>children\<close> are read.  \<^verbatim>\<open>node1.k < self.c_dim_continuous\<close> raises
  \<^verbatim>\<open>TypeError\<close> when \<^verbatim>\<open>node1.k\<close> is \<^verbatim>\<open>None\<close>.
\<close>

function compare_metatree_recursion :: "'c config \<Rightarrow> 'sm node \<Rightarrow> 'sm node \<Rightarrow> error + bool" where
  "compare_metatree_recursion cfg node1 node2 =
     (if leaf node1 then (if leaf node2 then Inr True else Inr False)
      else if leaf node2 then Inr False
      else
        (case k node1 of None \<Rightarrow> Inl TypeError
         | Some k1 \<Rightarrow>
           (let compare_children =
              (if k1 < length (c_num_children_vec cfg)
               then first_false
                 (map (\<lambda>i. if i < length (children node1) \<and> i < length (children node2)
                            then compare_metatree_recursion cfg (children node1 ! i) (children node2 ! i)
                            else Inl IndexError)
                    [0..<c_num_children_vec cfg ! k1])
               else Inl IndexError)
            in
              if k1 < c_dim_continuous cfg then
                (if k node1 \<noteq> k node2 then Inr False
                 else
                   (case allclose (thresholds node1) (thresholds node2) of
                      Inl e \<Rightarrow> Inl e
                    | Inr close \<Rightarrow> if \<not> close then Inr False else compare_children))
              else
                (if k node1 \<noteq> k node2 then Inr False else compare_children))))"
  by pat_completeness auto
termination
  by (relation "measure (\<lambda>(cfg, node1, node2). size node1)") (auto simp: size_nth_children)

declare compare_metatree_recursion.simps [simp del]

text \<open>
  \<^verbatim>\<open>_marge_metatrees\<close>.  The list of trees is mutated in place: a merged entry becomes
  \<^verbatim>\<open>None\<close> and its weight \<open>-1\<close>.  The inner loop scans \<open>j = i+1, ..., n-1\<close> and
  breaks at the first tree equal to tree \<open>i\<close>.
\<close>

fun marge_inner ::
  "'c config \<Rightarrow> nat \<Rightarrow> nat list \<Rightarrow> 'sm node option list \<times> real list
     \<Rightarrow> error + ('sm node option list \<times> real list)" where
  "marge_inner cfg i [] (mts, pv) = Inr (mts, pv)"
| "marge_inner cfg i (j # js) (mts, pv) =
     (if i < length mts \<and> j < length mts then
        (case (mts ! i, mts ! j) of
           (Some a, Some b) \<Rightarrow>
             (case compare_metatree_recursion cfg a b of
                Inl e \<Rightarrow> Inl e
              | Inr eq \<Rightarrow>
                  if eq then
                    (if i < length pv \<and> j < length pv
                     then Inr (mts[i := None], (pv[j := pv ! j + pv ! i])[i := -1])
                     else Inl IndexError)
                  else marge_inner cfg i js (mts, pv))
         | _ \<Rightarrow> Inl AttributeError)
      else Inl IndexError)"

fun marge_outer ::
  "'c config \<Rightarrow> nat \<Rightarrow> nat list \<Rightarrow> 'sm node option list \<times> real list
     \<Rightarrow> error + ('sm node option list \<times> real list)" where
  "marge_outer cfg n [] s = Inr s"
| "marge_outer cfg n (i # is) s =
     (case marge_inner cfg i [i + 1..<n] s of
        Inl e \<Rightarrow> Inl e
      | Inr s' \<Rightarrow> marge_outer cfg n is s')"

definition marge_metatrees ::
  "'c config \<Rightarrow> 'sm node list \<Rightarrow> real list \<Rightarrow> error + ('sm node list \<times> real list)" where
  "marge_metatrees cfg metatree_list metatree_prob_vec =
     (let num_metatrees = length metatree_list in
      case marge_outer cfg num_metatrees [0..<num_metatrees]
             (map Some metatree_list, metatree_prob_vec) of
        Inl e \<Rightarrow> Inl e
      | Inr (mts, pv) \<Rightarrow>
          Inr (map the (filter (\<lambda>tmp. tmp \<noteq> None) mts), filter (\<lambda>p. p > - (1 / 2)) pv))"

subsection \<open>One Metropolis-Hastings step and the proposal-ceiling tuner\<close>

text \<open>
  \<^verbatim>\<open>_mh_step_truncated\<close>.  The previous tree is the last element of
  \<^verbatim>\<open>_tmp_metatree_list\<close>; the generator marks it in place, so the list holds the
  marked tree afterwards.  \<open>num_children\<close> is \<^verbatim>\<open>self._num_children\<close>.
\<close>

definition mh_step_truncated ::
  "('sm, 'r, 'd) sampler \<Rightarrow> 'sm config \<Rightarrow> nat \<Rightarrow> 'd \<Rightarrow> ('sm, 'r) mcmc_state
     \<Rightarrow> error + ('sm, 'r) mcmc_state" where
  "mh_step_truncated smp cfg num_children dat st =
     (case py_choice smp (root_k_candidates cfg) (rng st) of
        Inl e \<Rightarrow> Inl e
      | Inr (k0, r1) \<Rightarrow>
        (case py_last (tmp_metatree_list st) of
           Inl e \<Rightarrow> Inl e
         | Inr lst \<Rightarrow>
           (case generate smp cfg dat (Some (g_max st)) (Some lst)
                   (new_root cfg num_children k0) False r1 of
              (Inl e, r2) \<Rightarrow> Inl e
            | (Inr (lst', tmp_root, l_new), r2) \<Rightarrow>
              (let trees = (case lst' of None \<Rightarrow> tmp_metatree_list st
                            | Some marked \<Rightarrow> butlast (tmp_metatree_list st) @ [marked])
               in
               case calc_truncated_posterior_lean num_children (g_max st) tmp_root of
                 Inl e \<Rightarrow> Inl e
               | Inr t_posteror_new \<Rightarrow>
                 (case calc_truncated_posterior_lean num_children (g_max st) (last trees) of
                    Inl e \<Rightarrow> Inl e
                  | Inr t_posteror_last \<Rightarrow>
                    (case rng_random smp r2 of
                       (u, r3) \<Rightarrow>
                         if np_less u
                              (np_exp (np_add (np_sub (np_sub (Fin l_new) t_posteror_last)
                                                 (Fin (l_last st))) t_posteror_new)) then
                           Inr (st\<lparr>rng := r3,
                                   tmp_metatree_list := trees @ [tmp_root],
                                   tmp_metatree_count_list := tmp_metatree_count_list st @ [1],
                                   l_last := l_new,
                                   l_list := l_list st @ [l_new],
                                   num_proposed := num_proposed st + 1,
                                   num_accepted := num_accepted st + 1,
                                   numerator := numerator st * rho st + 1,
                                   denominator := denominator st * rho st + 1\<rparr>)
                         else
                           (case upd_last (\<lambda>c. c + 1) (tmp_metatree_count_list st) of
                              Inl e \<Rightarrow> Inl e
                            | Inr counts \<Rightarrow>
                                Inr (st\<lparr>rng := r3,
                                        tmp_metatree_list := trees,
                                        tmp_metatree_count_list := counts,
                                        l_list := l_list st @ [l_last st],
                                        num_proposed := num_proposed st + 1,
                                        numerator := numerator st * rho st,
                                        denominator := denominator st * rho st + 1\<rparr>))))))))"

text \<open>\<^verbatim>\<open>_update_g_max\<close>.\<close>

definition update_g_max :: "('sm, 'r) mcmc_state \<Rightarrow> error + ('sm, 'r) mcmc_state" where
  "update_g_max st =
     (case py_div (numerator st) (denominator st) of
        Inl e \<Rightarrow> Inl e
      | Inr p_hat \<Rightarrow>
        (case (if p_hat > p_obj st then py_div (g_max st * p_obj st) p_hat
               else (case py_div ((1 - g_max st) * (1 - p_obj st)) (1 - p_hat) of
                       Inl e \<Rightarrow> Inl e
                     | Inr q \<Rightarrow> Inr (1 - q))) of
           Inl e \<Rightarrow> Inl e
         | Inr g_max_new \<Rightarrow>
           (let acc = g_max_accumulated st * phi st + g_max_new;
                den = g_max_denominator st * phi st + 1
            in case py_div acc den of
                 Inl e \<Rightarrow> Inl e
               | Inr g \<Rightarrow>
                   Inr (st\<lparr>g_max_accumulated := acc,
                           g_max_denominator := den,
                           g_max := g,
                           g_list := g_list st @ [g]\<rparr>))))"

lemma mh_step_truncated_num_proposed:
  "mh_step_truncated smp cfg nc dat st = Inr st' \<Longrightarrow> num_proposed st' = num_proposed st + 1"
  unfolding mh_step_truncated_def
  by (auto simp: Let_def split: sum.splits prod.splits if_splits)

lemma update_g_max_num_proposed:
  "update_g_max st = Inr st' \<Longrightarrow> num_proposed st' = num_proposed st"
  unfolding update_g_max_def
  by (auto simp: Let_def split: sum.splits if_splits)

subsection \<open>The single-chain driver\<close>

text \<open>The burn-in loop of \<^verbatim>\<open>_MTMCMC\<close>: \<^verbatim>\<open>while self._num_proposed < burn_in\<close>.\<close>

function burn_in_loop ::
  "('sm, 'r, 'd) sampler \<Rightarrow> 'sm config \<Rightarrow> nat \<Rightarrow> 'd \<Rightarrow> int \<Rightarrow> ('sm, 'r) mcmc_state
     \<Rightarrow> error + ('sm, 'r) mcmc_state" where
  "burn_in_loop smp cfg nc dat burn_in st =
     (if num_proposed st < burn_in then
        (case mh_step_truncated smp cfg nc dat st of
           Inl e \<Rightarrow> Inl e
         | Inr st1 \<Rightarrow>
           (case update_g_max st1 of
              Inl e \<Rightarrow> Inl e
            | Inr st2 \<Rightarrow> burn_in_loop smp cfg nc dat burn_in st2))
      else Inr st)"
  by pat_completeness auto
termination
proof (relation "measure (\<lambda>(smp, cfg, nc, dat, burn_in, st). nat (burn_in - num_proposed st))")
  show "wf (measure (\<lambda>(smp, cfg, nc, dat, burn_in, st). nat (burn_in - num_proposed st)))"
    by simp
next
  fix smp :: "('sm, 'r, 'd) sampler" and cfg :: "'sm config" and nc dat burn_in
    and st st1 st2 :: "('sm, 'r) mcmc_state"
  assume "num_proposed st < burn_in"
    and "mh_step_truncated smp cfg nc dat st = Inr st1"
    and "update_g_max st1 = Inr st2"
  then show "((smp, cfg, nc, dat, burn_in, st2), (smp, cfg, nc, dat, burn_in, st))
      \<in> measure (\<lambda>(smp, cfg, nc, dat, burn_in, st). nat (burn_in - num_proposed st))"
    using mh_step_truncated_num_proposed update_g_max_num_proposed by fastforce
qed

declare burn_in_loop.simps [simp del]

text \<open>
  The sampling loop of \<^verbatim>\<open>_MTMCMC\<close>:
  \<^verbatim>\<open>while self._num_proposed < burn_in + num_metatrees\<close>.
\<close>

function sampling_loop ::
  "('sm, 'r, 'd) sampler \<Rightarrow> 'sm config \<Rightarrow> nat \<Rightarrow> 'd \<Rightarrow> int \<Rightarrow> ('sm, 'r) mcmc_state
     \<Rightarrow> error + ('sm, 'r) mcmc_state" where
  "sampling_loop smp cfg nc dat bound st =
     (if num_proposed st < bound then
        (case mh_step_truncated smp cfg nc dat st of
           Inl e \<Rightarrow> Inl e
         | Inr st1 \<Rightarrow> sampling_loop smp cfg nc dat bound st1)
      else Inr st)"
  by pat_completeness auto
termination
proof (relation "measure (\<lambda>(smp, cfg, nc, dat, bound, st). nat (bound - num_proposed st))")
  show "wf (measure (\<lambda>(smp, cfg, nc, dat, bound, st). nat (bound - num_proposed st)))"
    by simp
next
  fix smp :: "('sm, 'r, 'd) sampler" and cfg :: "'sm config" and nc dat bound
    and st st1 :: "('sm, 'r) mcmc_state"
  assume "num_proposed st < bound"
    and "mh_step_truncated smp cfg nc dat st = Inr st1"
  then show "((smp, cfg, nc, dat, bound, st1), (smp, cfg, nc, dat, bound, st))
      \<in> measure (\<lambda>(smp, cfg, nc, dat, bound, st). nat (bound - num_proposed st))"
    using mh_step_truncated_num_proposed by fastforce
qed

declare sampling_loop.simps [simp del]

text \<open>
  The checks at the entry of \<^verbatim>\<open>_MTMCMC\<close> and \<^verbatim>\<open>_REMTMCMC\<close>; the value returned is
  \<^verbatim>\<open>self._num_children\<close>.  The messages are the constant parts of the source's.
\<close>

definition entry_checks :: "'sm config \<Rightarrow> error + nat" where
  "entry_checks cfg =
     (case c_num_children_vec cfg of
        [] \<Rightarrow> Inl IndexError
      | c0 # _ \<Rightarrow>
          if list_ex (\<lambda>c. c \<noteq> c0) (c_num_children_vec cfg) then
            Inl (ParameterFormatError
              ''MTMCMC is supported only when all the elements of self.c_num_children_vec are the same. '')
          else if list_ex (\<lambda>a. a > 0) (c_num_assignment_vec cfg) then
            Inl (ParameterFormatError
              ''MTMCMC is supported only when all the elements of self.c_num_assignment_vec are not positive. '')
          else
            (case h0_k_weight_vec cfg of
               [] \<Rightarrow> Inl IndexError
             | w0 # _ \<Rightarrow>
                 if \<not> list_all (\<lambda>w. isclose w w0) (h0_k_weight_vec cfg) then
                   Inl (ParameterFormatError
                     ''MTMCMC is supported only when all the elements of self.h0_k_weight_vec are the same. '')
                 else Inr c0))"

definition threshold_types :: "string list" where
  "threshold_types = [''1d_kmeans'', ''sample_midpoint'']"

text \<open>
  The state that \<^verbatim>\<open>_MTMCMC\<close> sets up before its loops, from the generator state
  \<open>r\<close>, the initial tree and its log marginal likelihood.
\<close>

definition init_state ::
  "'r \<Rightarrow> 'sm node \<Rightarrow> real \<Rightarrow> real \<Rightarrow> real \<Rightarrow> real \<Rightarrow> real \<Rightarrow> ('sm, 'r) mcmc_state" where
  "init_state r tmp_root l0 gmax0 rho0 phi0 p_obj0 =
     \<lparr>rng = r, tmp_metatree_list = [tmp_root], tmp_metatree_count_list = [1], l_last = l0,
      num_proposed = 1, num_accepted = 1, rho = rho0, phi = phi0, g_max = gmax0,
      denominator = 0, p_obj = p_obj0, numerator = 0 * p_obj0, g_list = [], l_list = [],
      g_max_denominator = 0, g_max_accumulated = gmax0 * 0\<rparr>"

text \<open>
  The part of \<^verbatim>\<open>_MTMCMC\<close> under the comment \<^verbatim>\<open># procedure\<close>: the burn-in
  loop, \<^verbatim>\<open>tmp = self._num_accepted-1\<close>, the reset of the last multiplicity, and the
  sampling loop.  It returns \<^verbatim>\<open>tmp\<close> and the final state.
\<close>

definition MTMCMC_procedure ::
  "('sm, 'r, 'd) sampler \<Rightarrow> 'sm config \<Rightarrow> nat \<Rightarrow> 'd \<Rightarrow> int \<Rightarrow> int \<Rightarrow> ('sm, 'r) mcmc_state
     \<Rightarrow> error + (int \<times> ('sm, 'r) mcmc_state)" where
  "MTMCMC_procedure smp cfg nc dat burn_in num_metatrees st0 =
     (case burn_in_loop smp cfg nc dat burn_in st0 of
        Inl e \<Rightarrow> Inl e
      | Inr st1 \<Rightarrow>
        (let tmp = num_accepted st1 - 1 in
         case upd_last (\<lambda>c. 1) (tmp_metatree_count_list st1) of
           Inl e \<Rightarrow> Inl e
         | Inr counts \<Rightarrow>
           (case sampling_loop smp cfg nc dat (burn_in + num_metatrees)
                   (st1\<lparr>tmp_metatree_count_list := counts\<rparr>) of
              Inl e \<Rightarrow> Inl e
            | Inr st2 \<Rightarrow> Inr (tmp, st2))))"

text \<open>
  The part of \<^verbatim>\<open>_MTMCMC\<close> under the comment \<^verbatim>\<open># output\<close>: the multiplicities
  from index \<^verbatim>\<open>tmp\<close> on are divided by their sum (a numpy division, which does not
  raise) and passed to the compactor with the trees from index \<^verbatim>\<open>tmp\<close> on.
\<close>

definition MTMCMC_output ::
  "'sm config \<Rightarrow> int \<Rightarrow> ('sm, 'r) mcmc_state \<Rightarrow> error + ('sm node list \<times> real list)" where
  "MTMCMC_output cfg tmp st =
     (let counted = map real_of_int (py_slice_from (tmp_metatree_count_list st) tmp);
          tmp_metatree_prob_vec = map (\<lambda>c. c / sum_list counted) counted
      in marge_metatrees cfg (py_slice_from (tmp_metatree_list st) tmp) tmp_metatree_prob_vec)"

text \<open>
  \<^verbatim>\<open>_MTMCMC\<close>.  \<open>r0\<close> is the generator \<^verbatim>\<open>np.random.default_rng(seed)\<close>.  The result
  is the pair \<^verbatim>\<open>(metatree_list, metatree_prob_vec)\<close>.
\<close>

definition MTMCMC ::
  "('sm, 'r, 'd) sampler \<Rightarrow> 'sm config \<Rightarrow> 'd \<Rightarrow> int \<Rightarrow> int \<Rightarrow> real \<Rightarrow> real \<Rightarrow> real \<Rightarrow> real
     \<Rightarrow> string \<Rightarrow> 'r \<Rightarrow> error + ('sm node list \<times> real list)" where
  "MTMCMC smp cfg dat burn_in num_metatrees gmax0 rho0 phi0 p_obj0 threshold_type r0 =
     (case entry_checks cfg of
        Inl e \<Rightarrow> Inl e
      | Inr nc \<Rightarrow>
          if threshold_type \<notin> set threshold_types then
            Inl (ParameterFormatError ''threshold_type must be 1d_kmeans or sample_midpoint.'')
          else
            (case py_choice smp (root_k_candidates cfg) r0 of
               Inl e \<Rightarrow> Inl e
             | Inr (k0, r1) \<Rightarrow>
               (case generate smp cfg dat None None (new_root cfg nc k0) True r1 of
                  (Inl e, r2) \<Rightarrow> Inl e
                | (Inr (unused, tmp_root, l0), r2) \<Rightarrow>
                    if c_dim_features cfg = 1 then Inr ([tmp_root], [1])
                    else
                      (case MTMCMC_procedure smp cfg nc dat burn_in num_metatrees
                              (init_state r2 tmp_root l0 gmax0 rho0 phi0 p_obj0) of
                         Inl e \<Rightarrow> Inl e
                       | Inr (tmp, st2) \<Rightarrow> MTMCMC_output cfg tmp st2))))"

subsection \<open>The marginal-likelihood recursion\<close>

text \<open>
  The data of a call: the rows of \<^verbatim>\<open>x_continuous\<close> and of \<^verbatim>\<open>x_categorical\<close> and the
  targets \<^verbatim>\<open>y\<close>, three arrays of one length (\<^verbatim>\<open>_check_sample\<close> sees to that).
\<close>

record 'y sample =
  x_continuous :: "real list list"
  x_categorical :: "nat list list"
  y :: "'y list"












subsection \<open>The entry point\<close>

text \<open>
  The posterior state of \<^verbatim>\<open>LearnModel\<close>: \<^verbatim>\<open>hn_metatree_list\<close> and
  \<^verbatim>\<open>hn_metatree_prob_vec\<close> (\<^verbatim>\<open>None\<close> until a first update).
\<close>

record 'sm posterior =
  hn_metatree_list :: "'sm node list"
  hn_metatree_prob_vec :: "real list option"

text \<open>
  What \<^verbatim>\<open>update_posterior\<close> calls: \<^verbatim>\<open>_check_sample\<close> on the raw arguments, and
  \<^verbatim>\<open>_MTRF\<close>, \<^verbatim>\<open>_given_MT\<close>, \<^verbatim>\<open>_MTMCMC\<close> and \<^verbatim>\<open>_REMTMCMC\<close> on the checked data and
  the keyword arguments.  \<^verbatim>\<open>_given_MT\<close> mutates the posterior in place and returns
  nothing: it yields the posterior as it leaves it, with the exception if it raised.
\<close>

record ('sm, 'raw, 'd, 'kw) algorithms =
  run_check_sample :: "'raw \<Rightarrow> error + 'd"
  run_MTRF :: "'d \<Rightarrow> 'kw \<Rightarrow> error + ('sm node list \<times> real list)"
  run_given_MT :: "'sm posterior \<Rightarrow> 'd \<Rightarrow> error option \<times> 'sm posterior"
  run_MTMCMC :: "'d \<Rightarrow> 'kw \<Rightarrow> error + ('sm node list \<times> real list)"
  run_REMTMCMC :: "'d \<Rightarrow> 'kw \<Rightarrow> error + ('sm node list \<times> real list)"

text \<open>
  \<^verbatim>\<open>update_posterior\<close>.  The result is the exception raised, if any, and the posterior
  state after the call.
\<close>

definition update_posterior ::
  "('sm, 'raw, 'd, 'kw) algorithms \<Rightarrow> 'sm posterior \<Rightarrow> 'raw \<Rightarrow> string \<Rightarrow> 'kw
     \<Rightarrow> error option \<times> 'sm posterior" where
  "update_posterior algs self raw alg_type kwargs =
     (case run_check_sample algs raw of
        Inl e \<Rightarrow> (Some e, self)
      | Inr dat \<Rightarrow>
          if alg_type = ''MTRF'' then
            (case run_MTRF algs dat kwargs of
               Inl e \<Rightarrow> (Some e, self)
             | Inr (ml, pv) \<Rightarrow>
                 run_given_MT algs
                   (self\<lparr>hn_metatree_list := ml, hn_metatree_prob_vec := Some pv\<rparr>) dat)
          else if alg_type = ''given_MT'' then run_given_MT algs self dat
          else if alg_type = ''MTMCMC'' then
            (case run_MTMCMC algs dat kwargs of
               Inl e \<Rightarrow> (Some e, self)
             | Inr (ml, pv) \<Rightarrow>
                 (None, self\<lparr>hn_metatree_list := ml, hn_metatree_prob_vec := Some pv\<rparr>))
          else if alg_type = ''REMTMCMC'' then
            (case run_REMTMCMC algs dat kwargs of
               Inl e \<Rightarrow> (Some e, self)
             | Inr (ml, pv) \<Rightarrow>
                 (None, self\<lparr>hn_metatree_list := ml, hn_metatree_prob_vec := Some pv\<rparr>))
          else (None, self))"

definition alg_types :: "string list" where
  "alg_types = [''MTRF'', ''given_MT'', ''MTMCMC'', ''REMTMCMC'']"

subsection \<open>Replica exchange\<close>

text \<open>The transient fields that \<^verbatim>\<open>_REMTMCMC\<close> adds to \<^verbatim>\<open>self\<close>.\<close>

record ('sm, 'r) re_state =
  re_rng :: 'r
  num_chains :: int
  tmp_metatree_lists :: "'sm node list list"
  tmp_metatree_count_lists :: "int list list"
  l_lasts :: "real list"
  re_g_max :: real
  re_l_list :: "real list"
  beta_vec :: "real list"
  num_interval :: int
  num_exchange :: int
  exchange_list :: "int list"

text \<open>
  Modelled from the spec: \<^verbatim>\<open>_check.pos_int\<close> is not among the source files.  By its
  name, its use and section 7 of the specification (an out-of-range hyperparameter is a
  parameter format error) it returns a positive integer unchanged and raises the
  exception class it is given otherwise.
\<close>

definition pos_int :: "int \<Rightarrow> string \<Rightarrow> error + int" where
  "pos_int val name =
     (if 0 < val then Inr val
      else Inl (ParameterFormatError (name @ '' must be a positive integer'')))"

text \<open>
  The roots of the chains and their initial trees: \<^verbatim>\<open>_REMTMCMC\<close> first draws a split
  feature for the root of every chain, then generates every chain's initial tree in the
  forced mode.
\<close>

fun make_roots ::
  "('sm, 'r, 'd) sampler \<Rightarrow> 'sm config \<Rightarrow> nat \<Rightarrow> nat \<Rightarrow> 'r \<Rightarrow> error + ('sm node list \<times> 'r)" where
  "make_roots smp cfg nc 0 r = Inr ([], r)"
| "make_roots smp cfg nc (Suc n) r =
     (case py_choice smp (root_k_candidates cfg) r of
        Inl e \<Rightarrow> Inl e
      | Inr (k0, r1) \<Rightarrow>
        (case make_roots smp cfg nc n r1 of
           Inl e \<Rightarrow> Inl e
         | Inr (roots, r2) \<Rightarrow> Inr (new_root cfg nc k0 # roots, r2)))"

fun init_chains ::
  "('sm, 'r, 'd) sampler \<Rightarrow> 'sm config \<Rightarrow> 'd \<Rightarrow> 'sm node list \<Rightarrow> 'r
     \<Rightarrow> error + (('sm node \<times> real) list \<times> 'r)" where
  "init_chains smp cfg dat [] r = Inr ([], r)"
| "init_chains smp cfg dat (t # ts) r =
     (case generate smp cfg dat None None t True r of
        (Inl e, r1) \<Rightarrow> Inl e
      | (Inr (unused, t', l), r1) \<Rightarrow>
        (case init_chains smp cfg dat ts r1 of
           Inl e \<Rightarrow> Inl e
         | Inr (tls, r2) \<Rightarrow> Inr ((t', l) # tls, r2)))"

text \<open>
  \<^verbatim>\<open>self._beta_vec[:] = beta_vec\<close> on an array of \<open>n\<close> elements: an array of \<open>n\<close>
  elements is copied, an array of one element is broadcast, another length raises
  \<^verbatim>\<open>ValueError\<close>.
\<close>

definition assign_beta_vec :: "nat \<Rightarrow> real list \<Rightarrow> error + real list" where
  "assign_beta_vec n b =
     (if length b = n then Inr b
      else if length b = 1 then Inr (replicate n (hd b))
      else Inl ValueError)"

text \<open>
  Lines 2214 to 2221 of \<^verbatim>\<open>_REMTMCMC\<close>: the default schedule \<open>(j+1)/J\<close>, overwritten by
  a schedule the caller gives, which is then checked.
\<close>

definition set_beta_vec :: "nat \<Rightarrow> real list option \<Rightarrow> error + real list" where
  "set_beta_vec n beta =
     (case beta of
        None \<Rightarrow> Inr (map (\<lambda>j. (real j + 1) / real n) [0..<n])
      | Some b \<Rightarrow>
        (case assign_beta_vec n b of
           Inl e \<Rightarrow> Inl e
         | Inr bv \<Rightarrow>
             if list_ex (\<lambda>x. x < 0) bv \<or> list_ex (\<lambda>x. x > 1) bv then
               Inl (ParameterFormatError ''All the elements of beta_vec must be in [0,1] '')
             else Inr bv))"

text \<open>
  What \<^verbatim>\<open>_REMTMCMC\<close> has when it reaches the comment \<^verbatim>\<open># procedure\<close>: either it
  has returned the single tree of a one-feature model, or the chains are set up.
\<close>

datatype ('sm, 'r) re_setup =
    Single_feature "'sm node list" "real list"
  | Chains "('sm, 'r) re_state"

text \<open>
  \<^verbatim>\<open>_REMTMCMC\<close> up to the comment \<^verbatim>\<open># procedure\<close>.  \<open>r0\<close> is the generator
  \<^verbatim>\<open>np.random.default_rng(seed)\<close>.
\<close>

definition REMTMCMC_setup ::
  "('sm, 'r, 'd) sampler \<Rightarrow> 'sm config \<Rightarrow> 'd \<Rightarrow> int \<Rightarrow> real \<Rightarrow> real list option \<Rightarrow> int \<Rightarrow> int
     \<Rightarrow> string \<Rightarrow> 'r \<Rightarrow> error + ('sm, 'r) re_setup" where
  "REMTMCMC_setup smp cfg dat num_chains0 gmax0 beta num_interval0 num_exchange0
       threshold_type r0 =
     (case entry_checks cfg of
        Inl e \<Rightarrow> Inl e
      | Inr nc \<Rightarrow>
        (case pos_int num_chains0 ''num_chains'' of
           Inl e \<Rightarrow> Inl e
         | Inr n \<Rightarrow>
             if threshold_type \<notin> set threshold_types then
               Inl (ParameterFormatError ''threshold_type must be 1d_kmeans or sample_midpoint.'')
             else
               (case make_roots smp cfg nc (nat n) r0 of
                  Inl e \<Rightarrow> Inl e
                | Inr (roots, r1) \<Rightarrow>
                  (case init_chains smp cfg dat roots r1 of
                     Inl e \<Rightarrow> Inl e
                   | Inr (tls, r2) \<Rightarrow>
                       if c_dim_features cfg = 1 then
                         (case py_last (map (\<lambda>tl. [fst tl]) tls) of
                            Inl e \<Rightarrow> Inl e
                          | Inr trees \<Rightarrow> Inr (Single_feature trees [1]))
                       else
                         (case set_beta_vec (nat n) beta of
                            Inl e \<Rightarrow> Inl e
                          | Inr bv \<Rightarrow>
                            (case pos_int num_interval0 ''num_interval'' of
                               Inl e \<Rightarrow> Inl e
                             | Inr ni \<Rightarrow>
                               (case pos_int num_exchange0 ''num_exchange'' of
                                  Inl e \<Rightarrow> Inl e
                                | Inr ne \<Rightarrow>
                                    Inr (Chains
                                      \<lparr>re_rng = r2, num_chains = n,
                                       tmp_metatree_lists = map (\<lambda>tl. [fst tl]) tls,
                                       tmp_metatree_count_lists = map (\<lambda>tl. [1]) tls,
                                       l_lasts = map snd tls,
                                       re_g_max = gmax0, re_l_list = [],
                                       beta_vec = bv, num_interval = ni,
                                       num_exchange = ne, exchange_list = []\<rparr>))))))))"







subsection \<open>Example inputs\<close>

text \<open>
  A root over two features that split on feature 0 and did not reuse the split of the
  previous tree (\<^verbatim>\<open>division_flag = False\<close>), with sub-model \<open>()\<close>.
\<close>

definition ex_tree :: "unit node" where
  "ex_tree = Node 0 [0, 1] (1 / 2) (Some 0) () [] [] None False [0, 0] None (Some False)"

text \<open>
  A sampler over the generator states \<open>0, 1, 2, ...\<close>: every draw advances the state,
  \<^verbatim>\<open>rng.random()\<close> returns \<open>1/2\<close>, \<^verbatim>\<open>rng.choice\<close> returns the first element, and
  both structure
  generators return \<open>ex_tree\<close> for the previous and the new tree, with the log marginal
  likelihood \<open>l r\<close> at generator state \<open>r\<close>.
\<close>

definition ex_sampler :: "(nat \<Rightarrow> real) \<Rightarrow> (unit, nat, unit) sampler" where
  "ex_sampler l =
     \<lparr>rng_random = (\<lambda>r. (1 / 2, Suc r)),
      rng_choice = (\<lambda>xs r. (hd xs, Suc r)),
      generate_truncated_and_update =
        (\<lambda>dat gmax lst new flag r. (Inr (map_option (\<lambda>t. ex_tree) lst, ex_tree, l r), Suc r)),
      generate_truncated_and_update_lr =
        (\<lambda>dat gmax lst new flag r. (Inr (map_option (\<lambda>t. ex_tree) lst, ex_tree, l r), Suc r))\<rparr>"

text \<open>Two features with two children each, one continuous and one categorical.\<close>

definition ex_config :: "unit config" where
  "ex_config =
     \<lparr>c_dim_continuous = 1, c_dim_categorical = 1, c_dim_features = 2, c_max_depth = 2,
      c_num_children_vec = [2, 2], c_num_assignment_vec = [-1, -1],
      c_ranges = [(-3, 3)], h0_k_weight_vec = [1, 1], hn_g = 1 / 2,
      hn_node_sub_model = (), is_linearregression = False\<rparr>"

text \<open>One continuous feature with two children.\<close>

definition ex_config1 :: "unit config" where
  "ex_config1 =
     \<lparr>c_dim_continuous = 1, c_dim_categorical = 0, c_dim_features = 1, c_max_depth = 2,
      c_num_children_vec = [2], c_num_assignment_vec = [-1],
      c_ranges = [(-3, 3)], h0_k_weight_vec = [1], hn_g = 1 / 2,
      hn_node_sub_model = (), is_linearregression = False\<rparr>"

text \<open>Algorithms that accept every input, and a posterior before its first update.\<close>

definition ex_algorithms :: "(unit, unit, unit, unit) algorithms" where
  "ex_algorithms =
     \<lparr>run_check_sample = (\<lambda>raw. Inr raw),
      run_MTRF = (\<lambda>dat kw. Inr ([ex_tree], [1])),
      run_given_MT = (\<lambda>self dat. (None, self)),
      run_MTMCMC = (\<lambda>dat kw. Inr ([ex_tree], [1])),
      run_REMTMCMC = (\<lambda>dat kw. Inr ([ex_tree], [1]))\<rparr>"

definition ex_posterior :: "unit posterior" where
  "ex_posterior = \<lparr>hn_metatree_list = [], hn_metatree_prob_vec = None\<rparr>"

text \<open>A leaf root, and two chains at the inverse temperatures \<open>1/2\<close> and \<open>1\<close>.\<close>

definition ex_leaf :: "unit node" where
  "ex_leaf = Node 0 [0, 1] 0 (Some 0) () [] [] None True [0, 0] None None"


text \<open>
  An inner node that splits feature 0 at \<open>1/2\<close> into two leaves, a sub-model whose log
  marginal likelihood is always 0, and two data points that both fall into the first
  child.
\<close>

definition ex_inner :: "unit node" where
  "ex_inner = Node 0 [0, 1] (1 / 2) (Some 0) () [ex_leaf, ex_leaf] [(0, 1)] (Some [0, 1 / 2, 1])
     False [0, 0] None None"



text \<open>
  A second leaf, which differs from \<open>ex_leaf\<close> in fields the comparator does not read, and
  two inner nodes that split the continuous feature 0 at \<open>100000\<close> and at \<open>99999\<close>.
\<close>

definition ex_leaf2 :: "unit node" where
  "ex_leaf2 = Node 0 [0, 1] 0 (Some 1) () [] [] None True [0, 0] (Some 1) None"

definition ex_split_a :: "unit node" where
  "ex_split_a = Node 0 [0, 1] (1 / 2) (Some 0) () [ex_leaf, ex_leaf] [(0, 200000)]
     (Some [0, 100000, 200000]) False [0, 0] None None"

definition ex_split_b :: "unit node" where
  "ex_split_b = Node 0 [0, 1] (1 / 2) (Some 0) () [ex_leaf, ex_leaf] [(0, 200000)]
     (Some [0, 99999, 200000]) False [0, 0] None None"

text \<open>
  A proposal that differs from the current tree below the root.  The generator has
  marked the root of the current tree \<open>ex_marked\<close> as not reused; the proposed tree
  \<open>ex_proposal\<close> has a root marked as reused, a first child marked as not reused and a
  second child without a split feature.  The sampler \<open>ex_proposer\<close> returns these two
  trees with log marginal likelihood 0 for the proposal, and draws \<open>2/5\<close> from
  \<^verbatim>\<open>rng.random()\<close>.
\<close>

definition ex_unreused :: "unit node" where
  "ex_unreused = Node 1 [0, 1] (1 / 2) (Some 0) () [] [] None False [0, 0] None (Some False)"

definition ex_unsplit :: "unit node" where
  "ex_unsplit = Node 1 [0, 1] (1 / 2) None () [] [] None True [0, 0] None None"

definition ex_marked :: "unit node" where
  "ex_marked = Node 0 [0, 1] (1 / 2) (Some 0) () [] [] None False [0, 0] None (Some False)"

definition ex_proposal :: "unit node" where
  "ex_proposal = Node 0 [0, 1] (1 / 2) (Some 0) () [ex_unreused, ex_unsplit] [] None False
     [0, 0] None (Some True)"

definition ex_proposer :: "(unit, nat, unit) sampler" where
  "ex_proposer =
     \<lparr>rng_random = (\<lambda>r. (2 / 5, Suc r)),
      rng_choice = (\<lambda>xs r. (hd xs, Suc r)),
      generate_truncated_and_update =
        (\<lambda>dat gmax lst new flag r. (Inr (Some ex_marked, ex_proposal, 0), Suc r)),
      generate_truncated_and_update_lr =
        (\<lambda>dat gmax lst new flag r. (Inr (Some ex_marked, ex_proposal, 0), Suc r))\<rparr>"

subsection \<open>Invariants and contracts\<close>

text \<open>
  The invariant of the burn-in loop: the ceiling is in \<open>[0,1]\<close>, and so is every value
  recorded in \<^verbatim>\<open>_g_list\<close>; the smoothed numerator lies between \<open>0\<close> and the smoothed
  denominator.
\<close>

definition tuner_inv :: "('sm, 'r) mcmc_state \<Rightarrow> bool" where
  "tuner_inv st =
     (0 \<le> g_max st \<and> g_max st \<le> 1 \<and> 0 \<le> phi st \<and> 0 < p_obj st \<and> p_obj st < 1
      \<and> 0 \<le> g_max_accumulated st \<and> g_max_accumulated st \<le> g_max_denominator st
      \<and> list_all (\<lambda>g. 0 \<le> g \<and> g \<le> 1) (g_list st))"



text \<open>
  The result of the compactor, described without its loops.  Tree \<open>a\<close> is the same as
  tree \<open>b\<close> when the comparator, called as the compactor calls it, returns \<open>True\<close>.
  The tree at index \<open>i\<close> is merged into the first later tree it is the same as; that
  tree receives the weight of tree \<open>i\<close> together with everything merged into tree \<open>i\<close>
  before.  The trees with no later equal survive.
\<close>

definition same_tree :: "'c config \<Rightarrow> 'sm node \<Rightarrow> 'sm node \<Rightarrow> bool" where
  "same_tree cfg a b = (compare_metatree_recursion cfg a b = Inr True)"

definition first_later :: "'c config \<Rightarrow> 'sm node list \<Rightarrow> nat \<Rightarrow> nat option" where
  "first_later cfg ts i = List.find (\<lambda>j. same_tree cfg (ts ! i) (ts ! j)) [Suc i..<length ts]"

fun merged_weight :: "'c config \<Rightarrow> 'sm node list \<Rightarrow> real list \<Rightarrow> nat \<Rightarrow> real" where
  "merged_weight cfg ts pv m =
     pv ! m + sum_list (map (\<lambda>m'. if first_later cfg ts m' = Some m
                                   then merged_weight cfg ts pv m' else 0) [0..<m])"

declare merged_weight.simps [simp del]

definition survivors :: "'c config \<Rightarrow> 'sm node list \<Rightarrow> nat list" where
  "survivors cfg ts = filter (\<lambda>i. first_later cfg ts i = None) [0..<length ts]"

text \<open>
  The comparator raises on malformed trees (an inner node without \<^verbatim>\<open>k\<close> or
  \<^verbatim>\<open>thresholds\<close>, too few children, threshold arrays of different shapes).  The
  compactor compares an earlier tree with a later one only.
\<close>

definition comparisons_return :: "'c config \<Rightarrow> 'sm node list \<Rightarrow> bool" where
  "comparisons_return cfg ts =
     (\<forall>j<length ts. \<forall>i<j. \<exists>b. compare_metatree_recursion cfg (ts ! i) (ts ! j) = Inr b)"

text \<open>
  A tree as the samplers build it: an inner node has a split feature \<^verbatim>\<open>k\<close>, one
  child per value of that feature, and, when the feature is continuous, one threshold
  more than it has children.
\<close>

fun wf_tree :: "'c config \<Rightarrow> 'sm node \<Rightarrow> bool" where
  "wf_tree cfg (Node d kc hg kk sm ch rg th lf lcml lml df) =
     (lf \<or>
      (case kk of None \<Rightarrow> False
       | Some k1 \<Rightarrow>
           k1 < length (c_num_children_vec cfg)
           \<and> c_num_children_vec cfg ! k1 \<le> length ch
           \<and> (k1 < c_dim_continuous cfg \<longrightarrow>
                (case th of None \<Rightarrow> False
                 | Some ths \<Rightarrow> length ths = c_num_children_vec cfg ! k1 + 1))
           \<and> list_all (wf_tree cfg) ch))"

text \<open>
  The two arrays of the compactor after the outer loop has handled the indices below
  \<open>i\<close>, and the sum of the weights that the final filter keeps.
\<close>

definition merged_into :: "'c config \<Rightarrow> 'sm node list \<Rightarrow> real list \<Rightarrow> nat \<Rightarrow> nat \<Rightarrow> real" where
  "merged_into cfg ts pv i m =
     sum_list (map (\<lambda>m'. if first_later cfg ts m' = Some m
                          then merged_weight cfg ts pv m' else 0) [0..<i])"

definition mts_at :: "'c config \<Rightarrow> 'sm node list \<Rightarrow> nat \<Rightarrow> 'sm node option list" where
  "mts_at cfg ts i =
     map (\<lambda>m. if m < i \<and> first_later cfg ts m \<noteq> None then None else Some (ts ! m))
       [0..<length ts]"

definition pv_at :: "'c config \<Rightarrow> 'sm node list \<Rightarrow> real list \<Rightarrow> nat \<Rightarrow> real list" where
  "pv_at cfg ts pv i =
     map (\<lambda>m. if m < i \<and> first_later cfg ts m \<noteq> None then - 1
               else pv ! m + sum_list (map (\<lambda>m'. if first_later cfg ts m' = Some m
                                                   then merged_weight cfg ts pv m' else 0) [0..<i]))
       [0..<length ts]"

definition kept_sum :: "real list \<Rightarrow> real" where
  "kept_sum xs = sum_list (map (\<lambda>p. if p > - (1 / 2) then p else 0) xs)"

section \<open>Properties\<close>

subsection \<open>Evaluation of the example inputs\<close>

lemma ex_tree_truncated_posterior:
  "calc_truncated_posterior_lean n g ex_tree = Inr (Fin (ln (1 - min (1 / 2) g)))"
proof -
  have "0 < 1 - min (1 / 2) g" by (simp add: min_def)
  then show ?thesis
    by (subst calc_truncated_posterior_lean.simps) (simp add: ex_tree_def np_log_def)
qed

lemma np_ratio_cancel [simp]:
  "np_exp (np_add (np_sub (np_sub (Fin a) (Fin t)) (Fin b)) (Fin t)) = Fin (exp (a - b))"
  by (simp add: np_sub_def)

lemma ex_config_root_k_candidates: "root_k_candidates ex_config = [0, 1]"
  by code_simp

lemma ex_config_not_linearregression: "\<not> is_linearregression ex_config"
  by (simp add: ex_config_def)

text \<open>
  With equal log marginal likelihoods the acceptance ratio is \<open>exp 0 = 1\<close>, so the draw
  \<open>1/2\<close> accepts.
\<close>

lemma ex_sampler_accepts:
  assumes "tmp_metatree_list st \<noteq> []" "l_last st = 0"
  shows "mh_step_truncated (ex_sampler (\<lambda>r. 0)) ex_config 2 () st =
     Inr (st\<lparr>rng := Suc (Suc (Suc (rng st))),
             tmp_metatree_list := butlast (tmp_metatree_list st) @ [ex_tree, ex_tree],
             tmp_metatree_count_list := tmp_metatree_count_list st @ [1],
             l_last := 0,
             l_list := l_list st @ [0],
             num_proposed := num_proposed st + 1,
             num_accepted := num_accepted st + 1,
             numerator := numerator st * rho st + 1,
             denominator := denominator st * rho st + 1\<rparr>)"
  using assms
  by (simp add: mh_step_truncated_def py_choice_def py_last_def ex_config_root_k_candidates
      ex_config_not_linearregression ex_sampler_def generate_def ex_tree_truncated_posterior
      Let_def)

subsection \<open>The proposal-ceiling tuner\<close>

lemma g_max_new_range:
  fixes g p ph :: real
  assumes "0 \<le> g" "g \<le> 1" "0 < p" "p < 1"
  shows "ph > p \<Longrightarrow> 0 \<le> g * p / ph \<and> g * p / ph \<le> 1"
    and "\<not> ph > p \<Longrightarrow> 0 \<le> 1 - (1 - g) * (1 - p) / (1 - ph) \<and> 1 - (1 - g) * (1 - p) / (1 - ph) \<le> 1"
proof -
  assume a: "ph > p"
  have "g * p \<le> 1 * ph" using assms a by (intro mult_mono) auto
  then show "0 \<le> g * p / ph \<and> g * p / ph \<le> 1" using assms a by (simp add: divide_le_eq)
next
  assume a: "\<not> ph > p"
  have "(1 - g) * (1 - p) \<le> 1 * (1 - ph)" using assms a by (intro mult_mono) auto
  then show "0 \<le> 1 - (1 - g) * (1 - p) / (1 - ph) \<and> 1 - (1 - g) * (1 - p) / (1 - ph) \<le> 1"
    using assms a by (simp add: divide_le_eq)
qed

lemma update_g_max_inv:
  assumes "tuner_inv st" "update_g_max st = Inr st'"
  shows "tuner_inv st'"
proof -
  from assms(2) obtain p_hat g_new where
    ph: "py_div (numerator st) (denominator st) = Inr p_hat" and
    gn: "g_new = (if p_hat > p_obj st then g_max st * p_obj st / p_hat
                  else 1 - (1 - g_max st) * (1 - p_obj st) / (1 - p_hat))" and
    st': "st' = st\<lparr>g_max_accumulated := g_max_accumulated st * phi st + g_new,
                   g_max_denominator := g_max_denominator st * phi st + 1,
                   g_max := (g_max_accumulated st * phi st + g_new) / (g_max_denominator st * phi st + 1),
                   g_list := g_list st @ [(g_max_accumulated st * phi st + g_new) / (g_max_denominator st * phi st + 1)]\<rparr>"
    unfolding update_g_max_def py_div_def
    by (auto simp: Let_def split: sum.splits if_splits)
  have r: "0 \<le> g_new \<and> g_new \<le> 1"
    using g_max_new_range[of "g_max st" "p_obj st" p_hat] assms(1) gn
    unfolding tuner_inv_def by (auto split: if_splits)
  have a: "0 \<le> g_max_accumulated st * phi st" "g_max_accumulated st * phi st \<le> g_max_denominator st * phi st"
    using assms(1) unfolding tuner_inv_def by (auto intro: mult_right_mono)
  have d: "0 < g_max_denominator st * phi st + 1" using a by linarith
  define g where "g = (g_max_accumulated st * phi st + g_new) / (g_max_denominator st * phi st + 1)"
  have g0: "0 \<le> g" unfolding g_def
    using a r d by (intro divide_nonneg_pos) auto
  have g1: "g \<le> 1" unfolding g_def
    using a r d by (simp add: divide_le_eq)
  have acc: "0 \<le> g_max_accumulated st * phi st + g_new"
    "g_max_accumulated st * phi st + g_new \<le> g_max_denominator st * phi st + 1"
    using a r by auto
  have st'': "st' = st\<lparr>g_max_accumulated := g_max_accumulated st * phi st + g_new,
                   g_max_denominator := g_max_denominator st * phi st + 1,
                   g_max := g, g_list := g_list st @ [g]\<rparr>"
    unfolding g_def by (rule st')
  show ?thesis
    using assms(1) g0 g1 acc unfolding tuner_inv_def st'' by simp
qed


lemma mh_step_truncated_cases:
  assumes "mh_step_truncated smp cfg nc dat st = Inr st'"
  obtains r trees root l where
      "st' = st\<lparr>rng := r, tmp_metatree_list := trees @ [root],
                 tmp_metatree_count_list := tmp_metatree_count_list st @ [1],
                 l_last := l, l_list := l_list st @ [l],
                 num_proposed := num_proposed st + 1,
                 num_accepted := num_accepted st + 1,
                 numerator := numerator st * rho st + 1,
                 denominator := denominator st * rho st + 1\<rparr>"
  | r trees counts where
      "st' = st\<lparr>rng := r, tmp_metatree_list := trees,
                 tmp_metatree_count_list := counts,
                 l_list := l_list st @ [l_last st],
                 num_proposed := num_proposed st + 1,
                 numerator := numerator st * rho st,
                 denominator := denominator st * rho st + 1\<rparr>"
  using assms unfolding mh_step_truncated_def
  by (auto simp: Let_def split: sum.splits prod.splits if_splits)


lemma mh_step_truncated_inv:
  assumes "tuner_inv st" "mh_step_truncated smp cfg nc dat st = Inr st'"
  shows "tuner_inv st'"
  using assms(2)
proof (cases rule: mh_step_truncated_cases)
  case 1
  then show ?thesis using assms(1) by (simp add: tuner_inv_def)
next
  case 2
  then show ?thesis using assms(1) by (simp add: tuner_inv_def)
qed

lemma burn_in_loop_inv:
  "tuner_inv st \<Longrightarrow> burn_in_loop smp cfg nc dat burn_in st = Inr st' \<Longrightarrow> tuner_inv st'"
proof (induction smp cfg nc dat burn_in st rule: burn_in_loop.induct)
  case (1 smp cfg nc dat burn_in st)
  show ?case
  proof (cases "num_proposed st < burn_in")
    case False
    then have "burn_in_loop smp cfg nc dat burn_in st = Inr st"
      by (subst burn_in_loop.simps) simp
    then show ?thesis using "1.prems" by simp
  next
    case True
    have eq: "burn_in_loop smp cfg nc dat burn_in st =
        (case mh_step_truncated smp cfg nc dat st of
           Inl e \<Rightarrow> Inl e
         | Inr st1 \<Rightarrow>
           (case update_g_max st1 of
              Inl e \<Rightarrow> Inl e
            | Inr st2 \<Rightarrow> burn_in_loop smp cfg nc dat burn_in st2))"
      using True by (subst burn_in_loop.simps) simp
    obtain st1 where s1: "mh_step_truncated smp cfg nc dat st = Inr st1"
      using "1.prems"(2) by (cases "mh_step_truncated smp cfg nc dat st") (auto simp: eq)
    obtain st2 where s2: "update_g_max st1 = Inr st2"
      using "1.prems"(2) by (cases "update_g_max st1") (auto simp: eq s1)
    have s3: "burn_in_loop smp cfg nc dat burn_in st2 = Inr st'"
      using "1.prems"(2) by (simp add: eq s1 s2)
    have "tuner_inv st2"
      using mh_step_truncated_inv[OF "1.prems"(1) s1] s2 update_g_max_inv by blast
    then show ?thesis using "1.IH"[OF True s1 s2] s3 by blast
  qed
qed


text \<open>
  The tuner raises only on a zero divisor.  With a decay \<open>rho \<ge> 0\<close> the acceptance
  denominator is at least 1 after every step, and the update returns.
\<close>

lemma update_g_max_returns:
  assumes "tuner_inv st" "0 < denominator st"
  shows "\<exists>st'. update_g_max st = Inr st'"
proof -
  define p_hat where "p_hat = numerator st / denominator st"
  have ph: "py_div (numerator st) (denominator st) = Inr p_hat"
    using assms(2) by (simp add: py_div_def p_hat_def)
  have d: "0 < g_max_denominator st * phi st + 1"
    using assms(1) unfolding tuner_inv_def
    by (meson add_nonneg_pos mult_nonneg_nonneg order_trans zero_less_one)
  have den: "\<And>a. py_div a (g_max_denominator st * phi st + 1)
      = Inr (a / (g_max_denominator st * phi st + 1))"
    using d by (simp add: py_div_def)
  show ?thesis
  proof (cases "p_hat > p_obj st")
    case True
    then have "p_hat \<noteq> 0" using assms(1) unfolding tuner_inv_def by auto
    then have "py_div (g_max st * p_obj st) p_hat = Inr (g_max st * p_obj st / p_hat)"
      by (simp add: py_div_def)
    then show ?thesis using True unfolding update_g_max_def ph
      by (simp add: den Let_def)
  next
    case False
    then have "1 - p_hat \<noteq> 0" using assms(1) unfolding tuner_inv_def by auto
    then have "py_div ((1 - g_max st) * (1 - p_obj st)) (1 - p_hat)
        = Inr ((1 - g_max st) * (1 - p_obj st) / (1 - p_hat))"
      by (simp add: py_div_def)
    then show ?thesis using False unfolding update_g_max_def ph
      by (simp add: den Let_def)
  qed
qed

lemma mh_step_truncated_denominator:
  assumes "mh_step_truncated smp cfg nc dat st = Inr st'" "0 \<le> rho st" "0 \<le> denominator st"
  shows "1 \<le> denominator st'"
  using assms(1)
proof (cases rule: mh_step_truncated_cases)
  case 1
  then show ?thesis using assms(2,3) by simp
next
  case 2
  then show ?thesis using assms(2,3) by simp
qed

lemma init_state_tuner_inv:
  assumes "0 \<le> gmax0" "gmax0 \<le> 1" "0 < p_obj0" "p_obj0 < 1" "0 \<le> phi0"
  shows "tuner_inv (init_state r t0 l0 gmax0 rho0 phi0 p_obj0)"
  using assms by (simp add: tuner_inv_def init_state_def)

text \<open>
  C4 (amended).  Start the burn-in loop of \<^verbatim>\<open>_MTMCMC\<close> from the state that
  \<^verbatim>\<open>_MTMCMC\<close> sets up, with an initial ceiling \<open>g_max\<close> in \<open>[0,1]\<close>, a target
  \<open>p_obj\<close> in \<open>(0,1)\<close> and a smoothing decay \<open>phi \<ge> 0\<close>.  Whatever the sampler draws,
  that is, for every sequence of accepted and rejected proposals, when the loop returns
  the ceiling \<open>g_max\<close> is in \<open>[0,1]\<close>, and so is every value that an update of the tuner
  produced (\<^verbatim>\<open>_g_list\<close> records the ceiling after each update).
\<close>

theorem tuner_keeps_g_max_in_unit_interval:
  assumes "0 \<le> gmax0" "gmax0 \<le> 1" "0 < p_obj0" "p_obj0 < 1" "0 \<le> phi0"
    and "burn_in_loop smp cfg nc dat burn_in (init_state r t0 l0 gmax0 rho0 phi0 p_obj0) = Inr st"
  shows "0 \<le> g_max st \<and> g_max st \<le> 1 \<and> list_all (\<lambda>g. 0 \<le> g \<and> g \<le> 1) (g_list st)"
proof -
  have "tuner_inv st"
    using burn_in_loop_inv[OF init_state_tuner_inv[OF assms(1-5)] assms(6)] .
  then show ?thesis by (simp add: tuner_inv_def)
qed

lemma ex_burn_in_default:
  "burn_in_loop (ex_sampler (\<lambda>r. 0)) ex_config 2 () 3
       (init_state 0 ex_tree 0 0 (99 / 100) (999 / 1000) (3 / 10)) =
     Inr (projr (burn_in_loop (ex_sampler (\<lambda>r. 0)) ex_config 2 () 3
       (init_state 0 ex_tree 0 0 (99 / 100) (999 / 1000) (3 / 10))))"
  by (simp add: burn_in_loop.simps ex_sampler_accepts init_state_def update_g_max_def
      py_div_def Let_def)

theorem tuner_keeps_g_max_in_unit_interval_witness:
  "(0::real) \<le> 0 \<and> (0::real) \<le> 1 \<and> (0::real) < 3 / 10 \<and> (3 / 10 :: real) < 1
   \<and> (0::real) \<le> 999 / 1000
   \<and> 0 \<le> g_max (projr (burn_in_loop (ex_sampler (\<lambda>r. 0)) ex_config 2 () 3
            (init_state 0 ex_tree 0 0 (99 / 100) (999 / 1000) (3 / 10))))
   \<and> g_max (projr (burn_in_loop (ex_sampler (\<lambda>r. 0)) ex_config 2 () 3
            (init_state 0 ex_tree 0 0 (99 / 100) (999 / 1000) (3 / 10)))) \<le> 1
   \<and> length (g_list (projr (burn_in_loop (ex_sampler (\<lambda>r. 0)) ex_config 2 () 3
            (init_state 0 ex_tree 0 0 (99 / 100) (999 / 1000) (3 / 10))))) = 2"
proof -
  have len: "length (g_list (projr (burn_in_loop (ex_sampler (\<lambda>r. 0)) ex_config 2 () 3
            (init_state 0 ex_tree 0 0 (99 / 100) (999 / 1000) (3 / 10))))) = 2"
    by (simp add: burn_in_loop.simps ex_sampler_accepts init_state_def update_g_max_def
        py_div_def Let_def)
  show ?thesis
    using tuner_keeps_g_max_in_unit_interval[OF _ _ _ _ _ ex_burn_in_default] len by simp
qed

text \<open>
  The claim without the condition on \<open>phi\<close> fails: with \<open>phi = -1/2\<close>, an initial ceiling 1,
  the default \<open>rho = 0.99\<close> and \<open>p_obj = 0.3\<close>, and two accepted proposals
  (\<open>burn_in = 3\<close>), the ceiling after burn-in is \<open>-3/25\<close>.
\<close>

theorem tuner_negative_phi_counterexample:
  "map_sum id g_max
     (burn_in_loop (ex_sampler (\<lambda>r. 0)) ex_config 2 () 3
        (init_state 0 ex_tree 0 1 (99 / 100) (- (1 / 2)) (3 / 10))) = Inr (- (3 / 25))"
  by (simp add: burn_in_loop.simps ex_sampler_accepts init_state_def update_g_max_def
      py_div_def Let_def)

subsection \<open>The acceptance rule of the single-chain driver\<close>


lemma mh_step_truncated_eval:
  assumes "py_choice smp (root_k_candidates cfg) (rng st) = Inr (k0, r1)"
    and "py_last (tmp_metatree_list st) = Inr lst"
    and "generate smp cfg dat (Some (g_max st)) (Some lst) (new_root cfg nc k0) False r1
           = (Inr (Some lst', new, L_new), r2)"
    and "calc_truncated_posterior_lean nc (g_max st) new = Inr T_new"
    and "calc_truncated_posterior_lean nc (g_max st) lst' = Inr T_last"
    and "rng_random smp r2 = (u, r3)"
    and "tmp_metatree_count_list st \<noteq> []"
  shows "mh_step_truncated smp cfg nc dat st =
     (if np_less u (np_exp (np_add (np_sub (np_sub (Fin L_new) T_last) (Fin (l_last st))) T_new))
      then Inr (st\<lparr>rng := r3,
                  tmp_metatree_list := butlast (tmp_metatree_list st) @ [lst', new],
                  tmp_metatree_count_list := tmp_metatree_count_list st @ [1],
                  l_last := L_new,
                  l_list := l_list st @ [L_new],
                  num_proposed := num_proposed st + 1,
                  num_accepted := num_accepted st + 1,
                  numerator := numerator st * rho st + 1,
                  denominator := denominator st * rho st + 1\<rparr>)
      else Inr (st\<lparr>rng := r3,
                  tmp_metatree_list := butlast (tmp_metatree_list st) @ [lst'],
                  tmp_metatree_count_list :=
                    butlast (tmp_metatree_count_list st) @ [last (tmp_metatree_count_list st) + 1],
                  l_list := l_list st @ [l_last st],
                  num_proposed := num_proposed st + 1,
                  numerator := numerator st * rho st,
                  denominator := denominator st * rho st + 1\<rparr>))"
  using assms by (simp add: mh_step_truncated_def upd_last_def Let_def)


text \<open>
  The step on the example proposal, with \<open>g_max = 1\<close> and \<^verbatim>\<open>_l_last\<close> \<open>= ln 2\<close>:
  \<open>T_new = 2 ln(1/2)\<close>, \<open>T_last = ln(1/2)\<close>, so the ratio is \<open>1/4\<close> and the draw
  \<open>2/5\<close> rejects.
\<close>

lemma ln_half: "ln (1 / 2) = - ln (2 :: real)"
  by (simp add: ln_div)

lemma exp_neg_2_ln_2: "exp (- (ln 2 + ln 2)) = (1 / 4 :: real)"
proof -
  have "exp (- (ln 2 + ln 2)) = inverse (exp (ln 2) * exp (ln (2 :: real)))"
    by (simp only: exp_minus exp_add)
  then show ?thesis by simp
qed

lemma ex_proposal_truncated_posterior:
  "calc_truncated_posterior_lean 2 1 ex_proposal = Inr (Fin (ln (1 / 2) + ln (1 / 2)))"
  "calc_truncated_posterior_lean 2 1 ex_marked = Inr (Fin (ln (1 / 2)))"
proof -
  have u: "[0..<2] = [0, Suc 0]" by (simp add: upt_rec)
  have a: "calc_truncated_posterior_lean 2 1 ex_unreused = Inr (Fin (ln (1 / 2)))"
    by (subst calc_truncated_posterior_lean.simps) (simp add: ex_unreused_def np_log_def)
  have b: "calc_truncated_posterior_lean 2 1 ex_unsplit = Inr (Fin 0)"
    by (subst calc_truncated_posterior_lean.simps) (simp add: ex_unsplit_def)
  have c: "children ex_proposal = [ex_unreused, ex_unsplit]" "k ex_proposal = Some 0"
    "division_flag ex_proposal = Some True" "h_g ex_proposal = 1 / 2"
    by (simp_all add: ex_proposal_def)
  show "calc_truncated_posterior_lean 2 1 ex_proposal = Inr (Fin (ln (1 / 2) + ln (1 / 2)))"
    by (subst calc_truncated_posterior_lean.simps) (simp add: c u a b np_log_def)
  show "calc_truncated_posterior_lean 2 1 ex_marked = Inr (Fin (ln (1 / 2)))"
    by (subst calc_truncated_posterior_lean.simps) (simp add: ex_marked_def np_log_def)
qed

lemma ex_proposer_ratio:
  "exp ((0 + (ln (1 / 2) + ln (1 / 2))) - (ln 2 + ln (1 / 2))) = (1 / 4 :: real)"
  "exp ((0 - (ln (1 / 2) + ln (1 / 2))) - (ln 2 - ln (1 / 2))) = (1 :: real)"
  "exp (0 + - ln (1 / 2) + - ln 2 + (ln (1 / 2) + ln (1 / 2))) = (1 / 4 :: real)"
proof -
  have a: "(0 + (ln (1 / 2) + ln (1 / 2))) - (ln 2 + ln (1 / 2)) = - (ln 2 + ln (2 :: real))"
    unfolding ln_half by simp
  show "exp ((0 + (ln (1 / 2) + ln (1 / 2))) - (ln 2 + ln (1 / 2))) = (1 / 4 :: real)"
    unfolding a by (rule exp_neg_2_ln_2)
  have b: "(0 - (ln (1 / 2) + ln (1 / 2))) - (ln 2 - ln (1 / 2)) = (0 :: real)"
    unfolding ln_half by simp
  show "exp ((0 - (ln (1 / 2) + ln (1 / 2))) - (ln 2 - ln (1 / 2))) = (1 :: real)"
    unfolding b by simp
  have c: "0 + - ln (1 / 2) + - ln 2 + (ln (1 / 2) + ln (1 / 2)) = - (ln 2 + ln (2 :: real))"
    unfolding ln_half by simp
  show "exp (0 + - ln (1 / 2) + - ln 2 + (ln (1 / 2) + ln (1 / 2))) = (1 / 4 :: real)"
    unfolding c by (rule exp_neg_2_ln_2)
qed

lemma ex_proposer_step:
  "mh_step_truncated ex_proposer ex_config 2 ()
     (init_state 0 ex_tree (ln 2) 1 (99 / 100) (999 / 1000) (3 / 10))
   = Inr ((init_state 0 ex_tree (ln 2) 1 (99 / 100) (999 / 1000) (3 / 10))
            \<lparr>rng := 3, tmp_metatree_list := [ex_marked], tmp_metatree_count_list := [2],
              l_list := [ln 2], num_proposed := 2, numerator := 0,
              denominator := 1\<rparr>)"
proof -
  let ?st = "init_state 0 ex_tree (ln 2) 1 (99 / 100) (999 / 1000) (3 / 10) :: (unit, nat) mcmc_state"
  have g: "l_last ?st = ln 2" "tmp_metatree_list ?st = [ex_tree]" "tmp_metatree_count_list ?st = [1]"
    "g_max ?st = 1" "rng ?st = 0"
    by (simp_all add: init_state_def)
  have "np_exp (np_add (np_sub (np_sub (Fin 0) (Fin (ln (1 / 2)))) (Fin (ln 2)))
                  (Fin (ln (1 / 2) + ln (1 / 2))))
      = Fin (1 / 4)"
    by (simp only: np_sub_def np_neg.simps np_add.simps np_exp.simps ex_proposer_ratio)
  then have r: "np_less (2 / 5)
     (np_exp (np_add (np_sub (np_sub (Fin 0) (Fin (ln (1 / 2)))) (Fin (l_last ?st)))
                (Fin (ln (1 / 2) + ln (1 / 2))))) = False"
    unfolding g by simp
  have a: "py_choice ex_proposer (root_k_candidates ex_config) (rng ?st) = Inr (0, 1)"
    by (simp add: py_choice_def ex_config_root_k_candidates ex_proposer_def init_state_def)
  have b: "py_last (tmp_metatree_list ?st) = Inr ex_tree"
    by (simp add: py_last_def init_state_def)
  have c: "generate ex_proposer ex_config () (Some (g_max ?st)) (Some ex_tree)
             (new_root ex_config 2 0) False 1 = (Inr (Some ex_marked, ex_proposal, 0), 2)"
    by (simp add: generate_def ex_proposer_def ex_config_not_linearregression)
  have d: "calc_truncated_posterior_lean 2 (g_max ?st) ex_proposal
             = Inr (Fin (ln (1 / 2) + ln (1 / 2)))"
    "calc_truncated_posterior_lean 2 (g_max ?st) ex_marked = Inr (Fin (ln (1 / 2)))"
    by (simp_all only: g ex_proposal_truncated_posterior)
  have e: "rng_random ex_proposer 2 = (2 / 5, 3)"
    by (simp add: ex_proposer_def)
  have f: "tmp_metatree_count_list ?st \<noteq> []" by (simp add: init_state_def)
  show ?thesis
    unfolding mh_step_truncated_eval[OF a b c d e f] r
    by (simp add: init_state_def)
qed


text \<open>
  With the two \<open>T\<close> subtracted from their own \<open>L\<close>, the ratio
  \<open>exp((L_new - T_new) - (L_last - T_last))\<close> of the same step is 1 and the draw
  \<open>2/5\<close> would accept; the step rejects.
\<close>

lemma ex_proposer_step_lists:
  "map_sum id (\<lambda>st'. (tmp_metatree_list st', tmp_metatree_count_list st'))
        (mh_step_truncated ex_proposer ex_config 2 ()
           (init_state 0 ex_tree (ln 2) 1 (99 / 100) (999 / 1000) (3 / 10)))
       = Inr ([ex_marked], [2])"
  by (subst ex_proposer_step) simp

theorem mh_step_truncated_sign_counterexample:
  "calc_truncated_posterior_lean 2 1 ex_proposal = Inr (Fin (ln (1 / 2) + ln (1 / 2)))
   \<and> calc_truncated_posterior_lean 2 1 ex_marked = Inr (Fin (ln (1 / 2)))
   \<and> (2 / 5 :: real) < min 1 (exp ((0 - (ln (1 / 2) + ln (1 / 2))) - (ln 2 - ln (1 / 2))))
   \<and> map_sum id (\<lambda>st'. (tmp_metatree_list st', tmp_metatree_count_list st'))
        (mh_step_truncated ex_proposer ex_config 2 ()
           (init_state 0 ex_tree (ln 2) 1 (99 / 100) (999 / 1000) (3 / 10)))
       = Inr ([ex_marked], [2])"
proof (intro conjI)
  show "(2 / 5 :: real) < min 1 (exp ((0 - (ln (1 / 2) + ln (1 / 2))) - (ln 2 - ln (1 / 2))))"
    by (simp only: ex_proposer_ratio)
qed (rule ex_proposal_truncated_posterior ex_proposer_step_lists)+

subsection \<open>The single-feature short circuit\<close>





lemma ex_config1_entry_checks: "entry_checks ex_config1 = Inr 2"
  by (simp add: entry_checks_def ex_config1_def isclose_def)

lemma ex_config1_root_k_candidates: "root_k_candidates ex_config1 = [0]"
  by code_simp


subsection \<open>The iteration budget of the single-chain driver\<close>

text \<open>
  Every call of \<^verbatim>\<open>_mh_step_truncated\<close> appends one entry to \<^verbatim>\<open>_l_list\<close> and adds one
  to \<^verbatim>\<open>_num_proposed\<close>; every call of \<^verbatim>\<open>_update_g_max\<close> appends one entry to
  \<^verbatim>\<open>_g_list\<close>.  Nothing else changes these.
\<close>

lemma mh_step_truncated_counts:
  assumes "mh_step_truncated smp cfg nc dat st = Inr st'"
  shows "num_proposed st' = num_proposed st + 1"
    and "length (l_list st') = Suc (length (l_list st))"
    and "g_list st' = g_list st"
  using assms by (cases rule: mh_step_truncated_cases; simp)+

lemma update_g_max_counts:
  assumes "update_g_max st = Inr st'"
  shows "num_proposed st' = num_proposed st"
    and "l_list st' = l_list st"
    and "length (g_list st') = Suc (length (g_list st))"
  using assms unfolding update_g_max_def
  by (auto simp: Let_def split: sum.splits if_splits)

lemma burn_in_loop_counts:
  "burn_in_loop smp cfg nc dat burn_in st = Inr st' \<Longrightarrow>
     num_proposed st' = max (num_proposed st) burn_in
     \<and> int (length (l_list st')) = int (length (l_list st)) + (num_proposed st' - num_proposed st)
     \<and> int (length (g_list st')) = int (length (g_list st)) + (num_proposed st' - num_proposed st)"
proof (induction smp cfg nc dat burn_in st rule: burn_in_loop.induct)
  case (1 smp cfg nc dat burn_in st)
  show ?case
  proof (cases "num_proposed st < burn_in")
    case False
    then have "burn_in_loop smp cfg nc dat burn_in st = Inr st"
      by (subst burn_in_loop.simps) simp
    then show ?thesis using "1.prems" False by simp
  next
    case True
    have eq: "burn_in_loop smp cfg nc dat burn_in st =
        (case mh_step_truncated smp cfg nc dat st of
           Inl e \<Rightarrow> Inl e
         | Inr st1 \<Rightarrow>
           (case update_g_max st1 of
              Inl e \<Rightarrow> Inl e
            | Inr st2 \<Rightarrow> burn_in_loop smp cfg nc dat burn_in st2))"
      using True by (subst burn_in_loop.simps) simp
    obtain st1 where s1: "mh_step_truncated smp cfg nc dat st = Inr st1"
      using "1.prems" by (cases "mh_step_truncated smp cfg nc dat st") (auto simp: eq)
    obtain st2 where s2: "update_g_max st1 = Inr st2"
      using "1.prems" by (cases "update_g_max st1") (auto simp: eq s1)
    have s3: "burn_in_loop smp cfg nc dat burn_in st2 = Inr st'"
      using "1.prems" by (simp add: eq s1 s2)
    note ih = "1.IH"[OF True s1 s2 s3]
    note a = mh_step_truncated_counts[OF s1] update_g_max_counts[OF s2]
    show ?thesis using ih a True by simp
  qed
qed

lemma sampling_loop_counts:
  "sampling_loop smp cfg nc dat bound st = Inr st' \<Longrightarrow>
     num_proposed st' = max (num_proposed st) bound
     \<and> int (length (l_list st')) = int (length (l_list st)) + (num_proposed st' - num_proposed st)
     \<and> g_list st' = g_list st"
proof (induction smp cfg nc dat bound st rule: sampling_loop.induct)
  case (1 smp cfg nc dat bound st)
  show ?case
  proof (cases "num_proposed st < bound")
    case False
    then have "sampling_loop smp cfg nc dat bound st = Inr st"
      by (subst sampling_loop.simps) simp
    then show ?thesis using "1.prems" False by simp
  next
    case True
    have eq: "sampling_loop smp cfg nc dat bound st =
        (case mh_step_truncated smp cfg nc dat st of
           Inl e \<Rightarrow> Inl e
         | Inr st1 \<Rightarrow> sampling_loop smp cfg nc dat bound st1)"
      using True by (subst sampling_loop.simps) simp
    obtain st1 where s1: "mh_step_truncated smp cfg nc dat st = Inr st1"
      using "1.prems" by (cases "mh_step_truncated smp cfg nc dat st") (auto simp: eq)
    have s3: "sampling_loop smp cfg nc dat bound st1 = Inr st'"
      using "1.prems" by (simp add: eq s1)
    note ih = "1.IH"[OF True s1 s3]
    note a = mh_step_truncated_counts[OF s1]
    show ?thesis using ih a True by simp
  qed
qed

text \<open>
  C9 (amended).  \<^verbatim>\<open>_num_proposed\<close> starts at 1: the initial tree counts as the first
  proposal.  For \<open>burn_in \<ge> 1\<close> and \<open>num_metatrees \<ge> 0\<close>, a run of the two loops of
  \<^verbatim>\<open>_MTMCMC\<close> that returns has executed exactly \<open>burn_in + num_metatrees - 1\<close>
  Metropolis-Hastings steps, of which the \<open>burn_in - 1\<close> steps of the burn-in loop were
  each followed by an update of the tuner, and \<^verbatim>\<open>_num_proposed\<close> ends at
  \<open>burn_in + num_metatrees\<close>.  Both loops are defined by recursion on that counter and
  terminate for every sampler.
\<close>

theorem MTMCMC_iteration_budget:
  assumes "1 \<le> burn_in" "0 \<le> num_metatrees"
    and "MTMCMC_procedure smp cfg nc dat burn_in num_metatrees
           (init_state r t0 l0 gmax0 rho0 phi0 p_obj0) = Inr (tmp, st)"
  shows "int (length (l_list st)) = burn_in + num_metatrees - 1
       \<and> int (length (g_list st)) = burn_in - 1
       \<and> num_proposed st = burn_in + num_metatrees"
proof -
  from assms(3) obtain st1 counts where
    b: "burn_in_loop smp cfg nc dat burn_in (init_state r t0 l0 gmax0 rho0 phi0 p_obj0) = Inr st1"
    and s: "sampling_loop smp cfg nc dat (burn_in + num_metatrees)
              (st1\<lparr>tmp_metatree_count_list := counts\<rparr>) = Inr st"
    unfolding MTMCMC_procedure_def
    by (auto simp: Let_def split: sum.splits)
  have i: "num_proposed (init_state r t0 l0 gmax0 rho0 phi0 p_obj0) = 1"
    "l_list (init_state r t0 l0 gmax0 rho0 phi0 p_obj0) = []"
    "g_list (init_state r t0 l0 gmax0 rho0 phi0 p_obj0) = []"
    by (simp_all add: init_state_def)
  from burn_in_loop_counts[OF b] sampling_loop_counts[OF s] i assms(1,2)
  show ?thesis by simp
qed

lemma ex_procedure:
  "MTMCMC_procedure (ex_sampler (\<lambda>r. 0)) ex_config 2 () 2 1
       (init_state 0 ex_tree 0 0 (99 / 100) (999 / 1000) (3 / 10)) =
     Inr (fst (projr (MTMCMC_procedure (ex_sampler (\<lambda>r. 0)) ex_config 2 () 2 1
            (init_state 0 ex_tree 0 0 (99 / 100) (999 / 1000) (3 / 10)))),
          snd (projr (MTMCMC_procedure (ex_sampler (\<lambda>r. 0)) ex_config 2 () 2 1
            (init_state 0 ex_tree 0 0 (99 / 100) (999 / 1000) (3 / 10)))))"
  by (simp add: MTMCMC_procedure_def burn_in_loop.simps sampling_loop.simps ex_sampler_accepts
      init_state_def update_g_max_def py_div_def upd_last_def Let_def)

theorem MTMCMC_iteration_budget_witness:
  "(1::int) \<le> 2 \<and> (0::int) \<le> 1
   \<and> length (l_list (snd (projr (MTMCMC_procedure (ex_sampler (\<lambda>r. 0)) ex_config 2 () 2 1
            (init_state 0 ex_tree 0 0 (99 / 100) (999 / 1000) (3 / 10)))))) = 2
   \<and> length (g_list (snd (projr (MTMCMC_procedure (ex_sampler (\<lambda>r. 0)) ex_config 2 () 2 1
            (init_state 0 ex_tree 0 0 (99 / 100) (999 / 1000) (3 / 10)))))) = 1"
  using MTMCMC_iteration_budget[OF _ _ ex_procedure] by simp

text \<open>
  The claim's count fails: with \<open>burn_in = 2\<close> and \<open>num_metatrees = 1\<close> the driver
  executes 2 steps, not 3.
\<close>

theorem MTMCMC_iteration_budget_counterexample:
  "map_sum id (length \<circ> l_list \<circ> snd)
     (MTMCMC_procedure (ex_sampler (\<lambda>r. 0)) ex_config 2 () 2 1
        (init_state 0 ex_tree 0 0 (99 / 100) (999 / 1000) (3 / 10))) = Inr 2"
  by (simp add: MTMCMC_procedure_def burn_in_loop.simps sampling_loop.simps ex_sampler_accepts
      init_state_def update_g_max_def py_div_def upd_last_def Let_def)

subsection \<open>The entry point and the algorithm type\<close>

text \<open>
  An algorithm type outside the four supported ones matches no branch of
  \<^verbatim>\<open>update_posterior\<close>: once the data has passed \<^verbatim>\<open>_check_sample\<close> the call returns
  without an exception and leaves the posterior as it was.
\<close>

lemma update_posterior_unsupported:
  assumes "alg_type \<notin> set alg_types"
  shows "update_posterior algs self raw alg_type kwargs =
     (case run_check_sample algs raw of Inl e \<Rightarrow> (Some e, self) | Inr dat \<Rightarrow> (None, self))"
  using assms by (simp add: update_posterior_def alg_types_def split: sum.splits)

text \<open>
  C2.  The claim asks for a parameter format error.  For the unsupported algorithm type
  \<^verbatim>\<open>'MTMC'\<close> and data that passes the check, \<^verbatim>\<open>update_posterior\<close> raises
  nothing and returns with the posterior unchanged.
\<close>

theorem update_posterior_unsupported_alg_type_not_rejected:
  "update_posterior ex_algorithms ex_posterior () ''MTMC'' () = (None, ex_posterior)"
  by (simp add: update_posterior_def ex_algorithms_def)

subsection \<open>The check of the temperature schedule\<close>

lemma set_beta_vec_error:
  assumes "length b = n"
  shows "set_beta_vec n (Some b) =
     (if list_ex (\<lambda>x. x < 0 \<or> 1 < x) b
      then Inl (ParameterFormatError ''All the elements of beta_vec must be in [0,1] '')
      else Inr b)"
  using assms by (auto simp: set_beta_vec_def assign_beta_vec_def list_ex_iff)

text \<open>
  C10 (amended).  When \<^verbatim>\<open>_REMTMCMC\<close> has passed its entry checks and generated the
  initial trees of a model with more than one feature, and the caller's \<^verbatim>\<open>beta_vec\<close>
  has \<^verbatim>\<open>num_chains\<close> elements, it raises the parameter format error for
  \<^verbatim>\<open>beta_vec\<close> if and only if some element lies outside \<open>[0,1]\<close>.  A schedule within
  \<open>[0,1]\<close> is taken as it is, whether or not it is strictly increasing or ends in 1:
  with valid \<^verbatim>\<open>num_interval\<close> and \<^verbatim>\<open>num_exchange\<close> the chains are set up with it.
\<close>

theorem REMTMCMC_beta_vec_check:
  assumes "entry_checks cfg = Inr nc"
    and "pos_int num_chains0 ''num_chains'' = Inr n"
    and "threshold_type \<in> set threshold_types"
    and "make_roots smp cfg nc (nat n) r0 = Inr (roots, r1)"
    and "init_chains smp cfg dat roots r1 = Inr (tls, r2)"
    and "c_dim_features cfg \<noteq> 1"
    and "length b = nat n"
  shows "(REMTMCMC_setup smp cfg dat num_chains0 gmax0 (Some b) num_interval0 num_exchange0
            threshold_type r0
          = Inl (ParameterFormatError ''All the elements of beta_vec must be in [0,1] ''))
         = list_ex (\<lambda>x. x < 0 \<or> 1 < x) b
       \<and> (\<not> list_ex (\<lambda>x. x < 0 \<or> 1 < x) b \<and> 0 < num_interval0 \<and> 0 < num_exchange0 \<longrightarrow>
            (\<exists>st. REMTMCMC_setup smp cfg dat num_chains0 gmax0 (Some b) num_interval0 num_exchange0
                    threshold_type r0 = Inr (Chains st) \<and> beta_vec st = b))"
  using assms
  by (auto simp: REMTMCMC_setup_def set_beta_vec_error pos_int_def split: if_splits)

lemma ex_config_entry_checks: "entry_checks ex_config = Inr 2"
  by (simp add: entry_checks_def ex_config_def isclose_def)

lemma ex_make_roots:
  "make_roots (ex_sampler (\<lambda>r. 0)) ex_config 2 (nat 2) 0
     = Inr ([new_root ex_config 2 0, new_root ex_config 2 0], 2)"
  by (simp add: eval_nat_numeral py_choice_def ex_config_root_k_candidates ex_sampler_def)

lemma ex_init_chains:
  "init_chains (ex_sampler (\<lambda>r. 0)) ex_config () [new_root ex_config 2 0, new_root ex_config 2 0] 2
     = Inr ([(ex_tree, 0), (ex_tree, 0)], 4)"
  by (simp add: generate_def ex_config_not_linearregression ex_sampler_def)

theorem REMTMCMC_beta_vec_check_witness:
  "entry_checks ex_config = Inr 2
   \<and> pos_int 2 ''num_chains'' = Inr 2
   \<and> ''1d_kmeans'' \<in> set threshold_types
   \<and> c_dim_features ex_config \<noteq> 1
   \<and> length [1, 1 / 2 :: real] = nat 2
   \<and> REMTMCMC_setup (ex_sampler (\<lambda>r. 0)) ex_config () 2 (9 / 10) (Some [1, 1 / 2]) 10 4
        ''1d_kmeans'' 0
       \<noteq> Inl (ParameterFormatError ''All the elements of beta_vec must be in [0,1] '')
   \<and> (\<exists>st. REMTMCMC_setup (ex_sampler (\<lambda>r. 0)) ex_config () 2 (9 / 10) (Some [1, 1 / 2]) 10 4
              ''1d_kmeans'' 0 = Inr (Chains st)
         \<and> beta_vec st = [1, 1 / 2])"
proof -
  have a: "pos_int 2 ''num_chains'' = Inr 2" by (simp add: pos_int_def)
  have b: "''1d_kmeans'' \<in> set threshold_types" by (simp add: threshold_types_def)
  have c: "c_dim_features ex_config \<noteq> 1" by (simp add: ex_config_def)
  have d: "length [1, 1 / 2 :: real] = nat 2" by simp
  from REMTMCMC_beta_vec_check[OF ex_config_entry_checks a b ex_make_roots ex_init_chains c d,
      of "9 / 10" 10 4]
  show ?thesis using ex_config_entry_checks a b c by simp
qed

text \<open>
  The claim without the condition on the number of features fails: a model with one
  feature returns its single tree before \<^verbatim>\<open>beta_vec\<close> is examined, so the schedule
  \<open>[2]\<close> raises nothing.
\<close>

lemma ex_config1_fields:
  "c_dim_features ex_config1 = 1" "\<not> is_linearregression ex_config1"
  by (simp_all add: ex_config1_def)

theorem REMTMCMC_beta_vec_single_feature_counterexample:
  "REMTMCMC_setup (ex_sampler (\<lambda>r. 0)) ex_config1 () 1 (9 / 10) (Some [2]) 10 4 ''1d_kmeans'' 0
     = Inr (Single_feature [ex_tree] [1])"
  by (simp add: REMTMCMC_setup_def ex_config1_entry_checks pos_int_def threshold_types_def
      py_choice_def ex_config1_root_k_candidates ex_sampler_def generate_def
      ex_config1_fields py_last_def)

subsection \<open>Replica exchange\<close>










subsection \<open>The marginal-likelihood recursion\<close>



lemma logaddexp_exp: "exp (logaddexp a b) = exp a + exp b"
  by (simp add: logaddexp_def add_pos_pos)


lemma ex_config_fields:
  "c_dim_continuous ex_config = 1" "c_num_children_vec ex_config = [2, 2]"
  by (simp_all add: ex_config_def)




subsection \<open>The ensemble compactor\<close>

text \<open>The inner loop finds the first later tree that tree \<open>i\<close> is the same as.\<close>

lemma marge_inner_find:
  assumes "i < length mts" "i < length pv" "mts ! i = Some a"
    and "\<forall>j\<in>set js. j < length mts \<and> j < length pv \<and> mts ! j = Some (ts ! j)
           \<and> (\<exists>b. compare_metatree_recursion cfg a (ts ! j) = Inr b)"
  shows "marge_inner cfg i js (mts, pv) =
     Inr (case List.find (\<lambda>j. same_tree cfg a (ts ! j)) js of
            None \<Rightarrow> (mts, pv)
          | Some j0 \<Rightarrow> (mts[i := None], (pv[j0 := pv ! j0 + pv ! i])[i := -1]))"
  using assms(4)
proof (induction js)
  case Nil
  then show ?case by simp
next
  case (Cons j js)
  then obtain b where b: "compare_metatree_recursion cfg a (ts ! j) = Inr b" by auto
  show ?case
  proof (cases b)
    case True
    then show ?thesis using Cons.prems assms(1-3) b by (simp add: same_tree_def)
  next
    case False
    then have "marge_inner cfg i (j # js) (mts, pv) = marge_inner cfg i js (mts, pv)"
      using Cons.prems assms(1-3) b by simp
    then show ?thesis using Cons.IH Cons.prems False b by (simp add: same_tree_def)
  qed
qed

lemma first_later_Some:
  assumes "first_later cfg ts i = Some j"
  shows "i < j" "j < length ts" "same_tree cfg (ts ! i) (ts ! j)"
proof -
  from assms obtain k where k: "k < length [Suc i..<length ts]"
    "same_tree cfg (ts ! i) (ts ! ([Suc i..<length ts] ! k))" "j = [Suc i..<length ts] ! k"
    unfolding first_later_def find_Some_iff by blast
  then have j: "j = Suc i + k" "Suc i + k < length ts" by auto
  show "i < j" "j < length ts" using j by auto
  show "same_tree cfg (ts ! i) (ts ! j)" using k by simp
qed

lemma first_later_None:
  "first_later cfg ts i = None \<longleftrightarrow> (\<forall>j. i < j \<and> j < length ts \<longrightarrow> \<not> same_tree cfg (ts ! i) (ts ! j))"
  unfolding first_later_def find_None_iff by auto

lemma merged_weight_nonneg:
  "(\<forall>m < length pv. 0 \<le> pv ! m) \<Longrightarrow> m < length pv \<Longrightarrow> 0 \<le> merged_weight cfg ts pv m"
proof (induction cfg ts pv m rule: merged_weight.induct)
  case (1 cfg ts pv m)
  have "0 \<le> sum_list (map (\<lambda>m'. if first_later cfg ts m' = Some m
                                   then merged_weight cfg ts pv m' else 0) [0..<m])"
    using 1 by (intro sum_list_nonneg) auto
  moreover have "0 \<le> pv ! m" using 1 by simp
  ultimately show ?case by (subst merged_weight.simps) simp
qed

lemma merged_into_Suc:
  "merged_into cfg ts pv (Suc i) m =
     merged_into cfg ts pv i m
     + (if first_later cfg ts i = Some m then merged_weight cfg ts pv i else 0)"
  by (simp add: merged_into_def)

lemma merged_weight_eq: "merged_weight cfg ts pv m = pv ! m + merged_into cfg ts pv m m"
  by (simp add: merged_into_def merged_weight.simps[of cfg ts pv m])

lemma merged_into_nonneg:
  assumes "\<forall>m < length pv. 0 \<le> pv ! m" "i \<le> length pv"
  shows "0 \<le> merged_into cfg ts pv i m"
  unfolding merged_into_def
  using assms by (intro sum_list_nonneg) (auto simp: merged_weight_nonneg)

lemma pv_at_nth:
  assumes "m < length ts"
  shows "pv_at cfg ts pv i ! m =
     (if m < i \<and> first_later cfg ts m \<noteq> None then - 1 else pv ! m + merged_into cfg ts pv i m)"
  using assms by (auto simp: pv_at_def merged_into_def)

lemma length_pv_at [simp]: "length (pv_at cfg ts pv i) = length ts"
  by (simp add: pv_at_def)

lemma pv_at_Suc:
  assumes "i < length ts"
  shows "pv_at cfg ts pv (Suc i) =
     (case first_later cfg ts i of
        None \<Rightarrow> pv_at cfg ts pv i
      | Some j0 \<Rightarrow> ((pv_at cfg ts pv i)[j0 := pv_at cfg ts pv i ! j0 + pv_at cfg ts pv i ! i])[i := - 1])"
proof (cases "first_later cfg ts i")
  case None
  have "pv_at cfg ts pv (Suc i) ! m = pv_at cfg ts pv i ! m" if "m < length ts" for m
    using that None by (auto simp: pv_at_nth merged_into_Suc less_Suc_eq)
  then show ?thesis unfolding None by (simp add: list_eq_iff_nth_eq)
next
  case (Some j0)
  note fl = first_later_Some[OF Some]
  have ii: "pv_at cfg ts pv i ! i = merged_weight cfg ts pv i"
    using assms by (simp add: pv_at_nth merged_weight_eq)
  have jj: "pv_at cfg ts pv i ! j0 = pv ! j0 + merged_into cfg ts pv i j0"
    using fl by (simp add: pv_at_nth)
  have "pv_at cfg ts pv (Suc i) ! m
      = ((pv_at cfg ts pv i)[j0 := pv_at cfg ts pv i ! j0 + pv_at cfg ts pv i ! i])[i := - 1] ! m"
    if m: "m < length ts" for m
  proof -
    consider "m = i" | "m = j0" | "m \<noteq> i" "m \<noteq> j0" by blast
    then show ?thesis
    proof cases
      case 1
      then show ?thesis using m Some by (simp add: pv_at_nth)
    next
      case 2
      have "pv_at cfg ts pv (Suc i) ! j0 = pv ! j0 + merged_into cfg ts pv (Suc i) j0"
        using fl by (simp add: pv_at_nth)
      also have "\<dots> = pv ! j0 + merged_into cfg ts pv i j0 + merged_weight cfg ts pv i"
        using Some by (simp add: merged_into_Suc)
      finally show ?thesis using 2 fl by (simp add: ii jj)
    next
      case 3
      have a: "(m < Suc i \<and> first_later cfg ts m \<noteq> None) = (m < i \<and> first_later cfg ts m \<noteq> None)"
        using 3 by (auto simp: less_Suc_eq)
      have b: "merged_into cfg ts pv (Suc i) m = merged_into cfg ts pv i m"
        using 3 Some by (simp add: merged_into_Suc)
      have "pv_at cfg ts pv (Suc i) ! m = pv_at cfg ts pv i ! m"
        using m by (simp only: pv_at_nth a b)
      then show ?thesis using 3 by simp
    qed
  qed
  then show ?thesis unfolding Some by (simp add: list_eq_iff_nth_eq)
qed

lemma length_mts_at [simp]: "length (mts_at cfg ts i) = length ts"
  by (simp add: mts_at_def)

lemma mts_at_nth:
  "m < length ts \<Longrightarrow> mts_at cfg ts i ! m =
     (if m < i \<and> first_later cfg ts m \<noteq> None then None else Some (ts ! m))"
  by (simp add: mts_at_def)

lemma mts_at_Suc:
  assumes "i < length ts"
  shows "mts_at cfg ts (Suc i) =
     (case first_later cfg ts i of
        None \<Rightarrow> mts_at cfg ts i
      | Some j0 \<Rightarrow> (mts_at cfg ts i)[i := None])"
proof -
  have "mts_at cfg ts (Suc i) ! m =
     (case first_later cfg ts i of
        None \<Rightarrow> mts_at cfg ts i
      | Some j0 \<Rightarrow> (mts_at cfg ts i)[i := None]) ! m" if "m < length ts" for m
    using that by (cases "m = i") (auto simp: mts_at_nth less_Suc_eq split: option.splits)
  then show ?thesis by (auto simp: list_eq_iff_nth_eq split: option.splits)
qed

text \<open>The outer loop, step by step, and the two filters at the end.\<close>

lemma marge_inner_step:
  assumes "i < length ts" "length pv = length ts" "comparisons_return cfg ts"
  shows "marge_inner cfg i [Suc i..<length ts] (mts_at cfg ts i, pv_at cfg ts pv i)
     = Inr (mts_at cfg ts (Suc i), pv_at cfg ts pv (Suc i))"
proof -
  have 1: "i < length (mts_at cfg ts i)" "i < length (pv_at cfg ts pv i)"
    "mts_at cfg ts i ! i = Some (ts ! i)"
    using assms(1) by (simp_all add: mts_at_nth)
  have 2: "\<forall>j\<in>set [Suc i..<length ts].
      j < length (mts_at cfg ts i) \<and> j < length (pv_at cfg ts pv i)
      \<and> mts_at cfg ts i ! j = Some (ts ! j)
      \<and> (\<exists>b. compare_metatree_recursion cfg (ts ! i) (ts ! j) = Inr b)"
    using assms(3) unfolding comparisons_return_def by (auto simp: mts_at_nth)
  show ?thesis
    unfolding marge_inner_find[OF 1 2] mts_at_Suc[OF assms(1)] pv_at_Suc[OF assms(1)]
    by (simp add: first_later_def split: option.splits)
qed

lemma marge_outer_loop:
  assumes "length pv = length ts" "comparisons_return cfg ts"
  shows "i \<le> length ts \<Longrightarrow>
     marge_outer cfg (length ts) [i..<length ts] (mts_at cfg ts i, pv_at cfg ts pv i)
       = Inr (mts_at cfg ts (length ts), pv_at cfg ts pv (length ts))"
proof (induction "length ts - i" arbitrary: i)
  case 0
  then have "[i..<length ts] = []" by simp
  moreover have "i = length ts" using 0 by simp
  ultimately show ?case by simp
next
  case (Suc d)
  then have i: "i < length ts" by simp
  have u: "[i..<length ts] = i # [Suc i..<length ts]" using i by (simp add: upt_conv_Cons)
  have d: "d = length ts - Suc i" using Suc.hyps(2) by simp
  have ih: "marge_outer cfg (length ts) [Suc i..<length ts]
              (mts_at cfg ts (Suc i), pv_at cfg ts pv (Suc i))
            = Inr (mts_at cfg ts (length ts), pv_at cfg ts pv (length ts))"
    using Suc.hyps(1)[OF d] i by simp
  have st: "marge_inner cfg i [i + 1..<length ts] (mts_at cfg ts i, pv_at cfg ts pv i)
     = Inr (mts_at cfg ts (Suc i), pv_at cfg ts pv (Suc i))"
    using marge_inner_step[OF i assms] by simp
  show ?case
    by (simp only: u marge_outer.simps st sum.case ih)
qed

lemma mts_at_0: "mts_at cfg ts 0 = map Some ts"
  by (rule nth_equalityI) (simp_all add: mts_at_nth)

lemma pv_at_0: "length pv = length ts \<Longrightarrow> pv_at cfg ts pv 0 = pv"
  by (rule nth_equalityI) (simp_all add: pv_at_nth merged_into_def)

lemma sum_list_map_zero: "(\<forall>x\<in>set xs. f x = (0::real)) \<Longrightarrow> sum_list (map f xs) = 0"
  by (induction xs) auto

lemma merged_into_full:
  assumes "m < length ts"
  shows "merged_into cfg ts pv (length ts) m = merged_into cfg ts pv m m"
proof -
  have "[0..<length ts] = [0..<m] @ [m..<length ts]"
    using assms by (metis le_add_diff_inverse less_imp_le_nat upt_add_eq_append zero_le)
  moreover have "sum_list (map (\<lambda>m'. if first_later cfg ts m' = Some m
                          then merged_weight cfg ts pv m' else 0) [m..<length ts]) = 0"
  proof (rule sum_list_map_zero, rule ballI)
    fix x assume "x \<in> set [m..<length ts]"
    then have "m \<le> x" by simp
    then have "first_later cfg ts x \<noteq> Some m" using first_later_Some(1) by fastforce
    then show "(if first_later cfg ts x = Some m then merged_weight cfg ts pv x else 0) = 0"
      by simp
  qed
  ultimately show ?thesis by (simp add: merged_into_def)
qed

lemma pv_at_length_nth:
  assumes "m < length ts"
  shows "pv_at cfg ts pv (length ts) ! m
     = (if first_later cfg ts m \<noteq> None then - 1 else merged_weight cfg ts pv m)"
  using assms by (simp add: pv_at_nth merged_into_full merged_weight_eq)

lemma mts_at_final:
  "map the (filter (\<lambda>tmp. tmp \<noteq> None) (mts_at cfg ts (length ts)))
     = map (\<lambda>m. ts ! m) (survivors cfg ts)"
proof -
  have a: "mts_at cfg ts (length ts)
      = map (\<lambda>m. mts_at cfg ts (length ts) ! m) [0..<length ts]"
    by (metis length_mts_at map_nth)
  have b: "filter ((\<lambda>tmp. tmp \<noteq> None) \<circ> (\<lambda>m. mts_at cfg ts (length ts) ! m)) [0..<length ts]
      = survivors cfg ts"
    unfolding survivors_def by (rule filter_cong) (auto simp: mts_at_nth)
  have c: "map (the \<circ> (\<lambda>m. mts_at cfg ts (length ts) ! m)) (survivors cfg ts)
      = map (\<lambda>m. ts ! m) (survivors cfg ts)"
    by (rule map_cong) (auto simp: survivors_def mts_at_nth)
  show ?thesis
    by (subst a) (simp only: filter_map map_map b c)
qed

lemma pv_at_final:
  assumes "length pv = length ts" "\<forall>m < length pv. 0 \<le> pv ! m"
  shows "filter (\<lambda>p. p > - (1 / 2)) (pv_at cfg ts pv (length ts))
     = map (merged_weight cfg ts pv) (survivors cfg ts)"
proof -
  have a: "pv_at cfg ts pv (length ts)
      = map (\<lambda>m. pv_at cfg ts pv (length ts) ! m) [0..<length ts]"
    by (metis length_pv_at map_nth)
  have b: "filter ((\<lambda>p. p > - (1 / 2)) \<circ> (\<lambda>m. pv_at cfg ts pv (length ts) ! m)) [0..<length ts]
      = survivors cfg ts"
    unfolding survivors_def
  proof (rule filter_cong)
    fix m assume "m \<in> set [0..<length ts]"
    then have m: "m < length ts" by simp
    have "0 \<le> merged_weight cfg ts pv m"
      using merged_weight_nonneg[OF assms(2)] m assms(1) by simp
    then show "((\<lambda>p. p > - (1 / 2)) \<circ> (\<lambda>m. pv_at cfg ts pv (length ts) ! m)) m
        = (first_later cfg ts m = None)"
      using m by (simp add: pv_at_length_nth)
  qed simp
  have c: "map (\<lambda>m. pv_at cfg ts pv (length ts) ! m) (survivors cfg ts)
      = map (merged_weight cfg ts pv) (survivors cfg ts)"
    by (rule map_cong) (auto simp: survivors_def pv_at_length_nth)
  show ?thesis
    by (subst a) (simp only: filter_map b c)
qed

lemma marge_metatrees_result:
  assumes "length pv = length ts" "comparisons_return cfg ts" "\<forall>m < length pv. 0 \<le> pv ! m"
  shows "marge_metatrees cfg ts pv
     = Inr (map (\<lambda>m. ts ! m) (survivors cfg ts), map (merged_weight cfg ts pv) (survivors cfg ts))"
proof -
  have "marge_outer cfg (length ts) [0..<length ts] (map Some ts, pv)
      = Inr (mts_at cfg ts (length ts), pv_at cfg ts pv (length ts))"
    using marge_outer_loop[OF assms(1,2), of 0] by (simp add: mts_at_0 pv_at_0[OF assms(1)])
  then show ?thesis
    by (simp only: marge_metatrees_def Let_def sum.case prod.case mts_at_final
        pv_at_final[OF assms(1,3)])
qed

text \<open>The compactor keeps the sum of the weights, and no survivor is the same as a later one.\<close>

lemma sum_list_update_real:
  fixes xs :: "real list"
  shows "n < length xs \<Longrightarrow> sum_list (xs[n := x]) = sum_list xs + x - xs ! n"
  by (induction xs arbitrary: n) (auto split: nat.splits)

lemma kept_sum_filter: "sum_list (filter (\<lambda>p. p > - (1 / 2)) xs) = kept_sum xs"
  unfolding kept_sum_def by (induction xs) auto

lemma kept_sum_update:
  "n < length xs \<Longrightarrow> kept_sum (xs[n := x])
     = kept_sum xs + (if x > - (1 / 2) then x else 0) - (if xs ! n > - (1 / 2) then xs ! n else 0)"
  unfolding kept_sum_def by (simp add: map_update sum_list_update_real)

lemma kept_sum_merge:
  assumes "i < length xs" "j < length xs" "i \<noteq> j" "0 \<le> xs ! i" "0 \<le> xs ! j"
  shows "kept_sum ((xs[j := xs ! j + xs ! i])[i := - 1]) = kept_sum xs"
  using assms by (simp add: kept_sum_update nth_list_update)

lemma kept_sum_pv_at_Suc:
  assumes "i < length ts" "length pv = length ts" "\<forall>m < length pv. 0 \<le> pv ! m"
  shows "kept_sum (pv_at cfg ts pv (Suc i)) = kept_sum (pv_at cfg ts pv i)"
proof (cases "first_later cfg ts i")
  case None
  then show ?thesis by (simp add: pv_at_Suc[OF assms(1)])
next
  case (Some j0)
  note fl = first_later_Some[OF Some]
  have ii: "0 \<le> pv_at cfg ts pv i ! i"
    using assms merged_weight_nonneg[OF assms(3), of i cfg ts]
    by (simp add: pv_at_nth merged_weight_eq)
  have "i \<le> length pv" using assms(1,2) by simp
  then have "0 \<le> merged_into cfg ts pv i j0"
    by (rule merged_into_nonneg[OF assms(3)])
  then have jj: "0 \<le> pv_at cfg ts pv i ! j0"
    using fl assms(2,3) by (simp add: pv_at_nth)
  show ?thesis
    unfolding pv_at_Suc[OF assms(1)] Some option.case
    using kept_sum_merge[of i "pv_at cfg ts pv i" j0] assms(1) fl ii jj by simp
qed

lemma kept_sum_pv_at:
  assumes "length pv = length ts" "\<forall>m < length pv. 0 \<le> pv ! m"
  shows "i \<le> length ts \<Longrightarrow> kept_sum (pv_at cfg ts pv i) = sum_list pv"
proof (induction i)
  case 0
  have "map (\<lambda>p. if - (1 / 2) < p then p else 0) pv = pv"
    using assms(2) by (intro nth_equalityI) auto
  then show ?case by (simp add: pv_at_0[OF assms(1)] kept_sum_def)
next
  case (Suc i)
  then show ?case using kept_sum_pv_at_Suc[of i ts pv cfg] assms by simp
qed

lemma merged_weight_sum:
  assumes "length pv = length ts" "\<forall>m < length pv. 0 \<le> pv ! m"
  shows "sum_list (map (merged_weight cfg ts pv) (survivors cfg ts)) = sum_list pv"
  using kept_sum_pv_at[OF assms, of "length ts" cfg]
  by (simp add: pv_at_final[OF assms, symmetric] kept_sum_filter)

lemma survivors_not_same:
  "sorted_wrt (\<lambda>a b. \<not> same_tree cfg a b) (map (\<lambda>m. ts ! m) (survivors cfg ts))"
proof -
  have "sorted_wrt (<) (survivors cfg ts)"
    unfolding survivors_def by (intro sorted_wrt_filter) simp
  then have "sorted_wrt (\<lambda>x y. \<not> same_tree cfg (ts ! x) (ts ! y)) (survivors cfg ts)"
  proof (rule sorted_wrt_mono_rel[rotated])
    fix x y assume "x \<in> set (survivors cfg ts)" "y \<in> set (survivors cfg ts)" "x < y"
    then have "first_later cfg ts x = None" "y < length ts" by (auto simp: survivors_def)
    then show "\<not> same_tree cfg (ts ! x) (ts ! y)" using \<open>x < y\<close> by (simp add: first_later_None)
  qed
  then show ?thesis by (simp add: sorted_wrt_map)
qed

text \<open>On trees of that form the comparator returns.\<close>

lemma first_false_returns:
  "(\<forall>r\<in>set rs. \<exists>b. r = Inr b) \<Longrightarrow> \<exists>b. first_false rs = Inr b"
  by (induction rs) auto

lemma wf_tree_inner:
  assumes "wf_tree cfg t" "\<not> leaf t"
  obtains k1 where "k t = Some k1" "k1 < length (c_num_children_vec cfg)"
    "c_num_children_vec cfg ! k1 \<le> length (children t)"
    "k1 < c_dim_continuous cfg \<Longrightarrow>
       \<exists>ths. thresholds t = Some ths \<and> length ths = c_num_children_vec cfg ! k1 + 1"
    "\<And>i. i < length (children t) \<Longrightarrow> wf_tree cfg (children t ! i)"
  using assms by (cases t) (auto split: option.splits simp: list_all_length)

lemma wf_tree_compare_returns:
  "wf_tree cfg node1 \<Longrightarrow> wf_tree cfg node2
     \<Longrightarrow> \<exists>b. compare_metatree_recursion cfg node1 node2 = Inr b"
proof (induction cfg node1 node2 rule: compare_metatree_recursion.induct)
  case (1 cfg node1 node2)
  show ?case
  proof (cases "leaf node1 \<or> leaf node2")
    case True
    then show ?thesis by (subst compare_metatree_recursion.simps) auto
  next
    case False
    then have l: "\<not> leaf node1" "\<not> leaf node2" by auto
    from wf_tree_inner[OF "1.prems"(1) l(1)] obtain k1 where a:
      "k node1 = Some k1" "k1 < length (c_num_children_vec cfg)"
      "c_num_children_vec cfg ! k1 \<le> length (children node1)"
      "k1 < c_dim_continuous cfg \<Longrightarrow>
         \<exists>ths. thresholds node1 = Some ths \<and> length ths = c_num_children_vec cfg ! k1 + 1"
      "\<And>i. i < length (children node1) \<Longrightarrow> wf_tree cfg (children node1 ! i)"
      by metis
    show ?thesis
    proof (cases "k node2 = Some k1")
      case False
      then show ?thesis
        using l a(1) by (subst compare_metatree_recursion.simps) (auto simp: Let_def split: sum.splits)
    next
      case True
      from wf_tree_inner[OF "1.prems"(2) l(2)] True have b:
        "c_num_children_vec cfg ! k1 \<le> length (children node2)"
        "k1 < c_dim_continuous cfg \<Longrightarrow>
           \<exists>ths. thresholds node2 = Some ths \<and> length ths = c_num_children_vec cfg ! k1 + 1"
        "\<And>i. i < length (children node2) \<Longrightarrow> wf_tree cfg (children node2 ! i)"
        by (metis option.inject)+
      have ch: "\<exists>b. first_false
                 (map (\<lambda>i. if i < length (children node1) \<and> i < length (children node2)
                            then compare_metatree_recursion cfg (children node1 ! i) (children node2 ! i)
                            else Inl IndexError)
                    [0..<c_num_children_vec cfg ! k1]) = Inr b"
      proof (rule first_false_returns, rule ballI)
        fix r assume "r \<in> set (map (\<lambda>i. if i < length (children node1) \<and> i < length (children node2)
                            then compare_metatree_recursion cfg (children node1 ! i) (children node2 ! i)
                            else Inl IndexError)
                    [0..<c_num_children_vec cfg ! k1])"
        then obtain i where i: "i < c_num_children_vec cfg ! k1"
          "r = (if i < length (children node1) \<and> i < length (children node2)
                then compare_metatree_recursion cfg (children node1 ! i) (children node2 ! i)
                else Inl IndexError)" by auto
        have il: "i < length (children node1)" "i < length (children node2)"
          using i(1) a(3) b(1) by auto
        have "\<exists>b. compare_metatree_recursion cfg (children node1 ! i) (children node2 ! i) = Inr b"
          using "1.IH" l a(1) a(2) a(5)[OF il(1)] b(3)[OF il(2)] i(1) il by simp
        then show "\<exists>b. r = Inr b" using i(2) il by simp
      qed
      have ac: "k1 < c_dim_continuous cfg \<Longrightarrow>
          \<exists>c. allclose (thresholds node1) (thresholds node2) = Inr c"
        using a(4) b(2) by (auto simp: allclose_def)
      show ?thesis
        using l a(1,2) True ch ac
        by (subst compare_metatree_recursion.simps) (auto simp: Let_def split: sum.splits)
    qed
  qed
qed

lemma wf_tree_comparisons_return:
  "list_all (wf_tree cfg) ts \<Longrightarrow> comparisons_return cfg ts"
  unfolding comparisons_return_def by (auto simp: list_all_length wf_tree_compare_returns)

text \<open>The comparator and the compactor on the example trees.\<close>

lemma ex_compare_leaves:
  "compare_metatree_recursion cfg ex_leaf ex_leaf2 = Inr True"
  "compare_metatree_recursion cfg ex_leaf ex_leaf = Inr True"
  "compare_metatree_recursion cfg ex_leaf ex_inner = Inr False"
  "compare_metatree_recursion cfg ex_inner ex_leaf2 = Inr False"
  "compare_metatree_recursion cfg ex_leaf ex_split_a = Inr False"
  by (simp_all add: compare_metatree_recursion.simps ex_leaf_def ex_leaf2_def ex_inner_def
      ex_split_a_def)

lemma ex_compare_splits:
  "compare_metatree_recursion ex_config ex_split_a ex_split_b = Inr False"
  "compare_metatree_recursion ex_config ex_split_b ex_split_a = Inr True"
proof -
  have f: "leaf ex_split_a = False" "leaf ex_split_b = False" "k ex_split_a = Some 0"
    "k ex_split_b = Some 0" "thresholds ex_split_a = Some [0, 100000, 200000]"
    "thresholds ex_split_b = Some [0, 99999, 200000]"
    "children ex_split_a = [ex_leaf, ex_leaf]" "children ex_split_b = [ex_leaf, ex_leaf]"
    by (simp_all add: ex_split_a_def ex_split_b_def)
  have u: "[0..<2] = [0, Suc 0]" by (simp add: upt_rec)
  show "compare_metatree_recursion ex_config ex_split_a ex_split_b = Inr False"
    by (subst compare_metatree_recursion.simps)
      (simp add: f ex_config_fields allclose_def isclose_def Let_def)
  show "compare_metatree_recursion ex_config ex_split_b ex_split_a = Inr True"
    by (subst compare_metatree_recursion.simps)
      (simp add: f ex_config_fields allclose_def isclose_def Let_def u ex_compare_leaves)
qed

lemma ex_marge_two:
  assumes "compare_metatree_recursion cfg a b = Inr eq"
  shows "marge_metatrees cfg [a, b] [p, q]
     = (if eq then Inr ([b], filter (\<lambda>x. x > - (1 / 2)) [q + p]) else Inr ([a, b], filter (\<lambda>x. x > - (1 / 2)) [p, q]))"
proof -
  have u: "[0..<2] = [0, Suc 0]" "[Suc 0..<2] = [Suc 0]" "[2..<2] = []" by (simp_all add: upt_rec)
  show ?thesis
    using assms by (simp add: marge_metatrees_def Let_def u)
qed


lemma ex_three_comparisons_return:
  "comparisons_return cfg [ex_leaf, ex_inner, ex_leaf2]"
  unfolding comparisons_return_def
  by (auto simp: less_Suc_eq eval_nat_numeral ex_compare_leaves)






text \<open>
  C8, as amended.  For every list of trees with nonnegative weights that sum to 1, one
  weight per tree, on which the comparator returns, the compactor returns as many weights
  as trees, the weights sum to 1, and no returned tree compares structurally equal to a
  returned tree after it (both leaves, or the same split feature, close thresholds if the
  feature is continuous, and recursively equal children): the comparator is called with
  the earlier tree first, as the compactor calls it.
\<close>

theorem marge_metatrees_sums_to_one:
  assumes "length pv = length ts"
    and "comparisons_return cfg ts"
    and "list_all (\<lambda>p. 0 \<le> p) pv"
    and "sum_list pv = 1"
  shows "\<exists>ml out. marge_metatrees cfg ts pv = Inr (ml, out)
           \<and> length out = length ml
           \<and> sum_list out = 1
           \<and> (\<forall>j < length ml. \<forall>i < j. compare_metatree_recursion cfg (ml ! i) (ml ! j) \<noteq> Inr True)"
proof -
  let ?ml = "map (\<lambda>m. ts ! m) (survivors cfg ts)"
  let ?out = "map (merged_weight cfg ts pv) (survivors cfg ts)"
  have nn: "\<forall>m < length pv. 0 \<le> pv ! m"
    using assms(3) by (simp add: list_all_length)
  have "marge_metatrees cfg ts pv = Inr (?ml, ?out)"
    using marge_metatrees_result[OF assms(1,2) nn] .
  moreover have "length ?out = length ?ml" by simp
  moreover have "sum_list ?out = 1"
    using merged_weight_sum[OF assms(1) nn, of cfg] assms(4) by simp
  moreover have "\<forall>j < length ?ml. \<forall>i < j.
      compare_metatree_recursion cfg (?ml ! i) (?ml ! j) \<noteq> Inr True"
    using survivors_not_same[of cfg ts]
    unfolding sorted_wrt_iff_nth_less same_tree_def by auto
  ultimately show ?thesis by blast
qed

theorem marge_metatrees_sums_to_one_witness:
  "length [1 / 2, 1 / 4, 1 / 4 :: real] = length [ex_leaf, ex_inner, ex_leaf2]
   \<and> comparisons_return ex_config [ex_leaf, ex_inner, ex_leaf2]
   \<and> list_all (\<lambda>p. 0 \<le> p) [1 / 2, 1 / 4, 1 / 4 :: real]
   \<and> sum_list [1 / 2, 1 / 4, 1 / 4 :: real] = 1
   \<and> (\<exists>ml out. marge_metatrees ex_config [ex_leaf, ex_inner, ex_leaf2] [1 / 2, 1 / 4, 1 / 4]
          = Inr (ml, out)
        \<and> length out = length ml \<and> sum_list out = 1
        \<and> (\<forall>j < length ml. \<forall>i < j.
              compare_metatree_recursion ex_config (ml ! i) (ml ! j) \<noteq> Inr True))"
  using marge_metatrees_sums_to_one
    [of "[1 / 2, 1 / 4, 1 / 4]" "[ex_leaf, ex_inner, ex_leaf2]" ex_config]
  by (simp add: ex_three_comparisons_return less_Suc_eq eval_nat_numeral)

text \<open>
  The closeness test \<^verbatim>\<open>numpy.allclose(a, b)\<close> scales its tolerance by \<open>b\<close>, so the
  comparator is not symmetric.  Two trees that split at \<open>100000\<close> and at \<open>99999\<close> are
  both returned, and the comparator finds the second equal to the first.
\<close>

theorem marge_metatrees_asymmetric_counterexample:
  "marge_metatrees ex_config [ex_split_a, ex_split_b] [1 / 2, 1 / 2]
     = Inr ([ex_split_a, ex_split_b], [1 / 2, 1 / 2])
   \<and> compare_metatree_recursion ex_config ex_split_b ex_split_a = Inr True"
  by (simp add: ex_marge_two[OF ex_compare_splits(1)] ex_compare_splits(2))

end
